theory Spec2Isabelle
  imports Main "HOL-Library.Multiset" "HOL-Library.Char_ord" "HOL-Library.List_Lexorder"
    "HOL-Library.AList"
begin

section \<open>Python values\<close>

text \<open>
  The decoded JSON documents the client reads (\<^verbatim>\<open>json.loads\<close>) and the values it stores
  unchanged in its dataclasses. \<open>JNull\<close> is Python's \<^verbatim>\<open>None\<close>. \<open>JObj\<close> holds the
  key/value pairs of a decoded dict; the value of a key is the one \<open>map_of\<close> finds.
  A string is a sequence of code points below 256 (the type \<open>char\<close>). Numbers are
  integers, as the vendor's Unix timestamps are: a document with a fraction or an exponent
  in a number is outside the model. \<^verbatim>\<open>json.loads\<close> raises on an integer literal of more
  than 4300 digits, so the integers of a decoded document stay below that length, and
  rendering a decoded value into a log message does not raise.
\<close>

datatype json =
    JNull
  | JBool bool
  | JNum int
  | JStr string
  | JArr "json list"
  | JObj "(string \<times> json) list"

datatype py_exc = KeyError | TypeError | AttributeError | ValueError | OverflowError | OSError

text \<open>Truth value testing (\<^verbatim>\<open>if x:\<close>, \<^verbatim>\<open>not x\<close>).\<close>

fun truthy :: "json \<Rightarrow> bool" where
  "truthy JNull = False"
| "truthy (JBool b) = b"
| "truthy (JNum n) = (n \<noteq> 0)"
| "truthy (JStr s) = (s \<noteq> [])"
| "truthy (JArr xs) = (xs \<noteq> [])"
| "truthy (JObj kvs) = (kvs \<noteq> [])"

text \<open>
  Iteration (\<^verbatim>\<open>for x in v\<close>): a list yields its elements, a dict its keys, a string
  its one-character strings; anything else raises \<^verbatim>\<open>TypeError\<close>.
\<close>

fun py_iter :: "json \<Rightarrow> py_exc + json list" where
  "py_iter (JArr xs) = Inr xs"
| "py_iter (JObj kvs) = Inr (map (\<lambda>kv. JStr (fst kv)) kvs)"
| "py_iter (JStr s) = Inr (map (\<lambda>c. JStr [c]) s)"
| "py_iter JNull = Inl TypeError"
| "py_iter (JBool b) = Inl TypeError"
| "py_iter (JNum n) = Inl TypeError"

text \<open>\<^verbatim>\<open>d.get(key, default)\<close>: only a dict has the method.\<close>

fun dict_get :: "json \<Rightarrow> string \<Rightarrow> json \<Rightarrow> py_exc + json" where
  "dict_get (JObj kvs) k dflt = Inr (case map_of kvs k of None \<Rightarrow> dflt | Some v \<Rightarrow> v)"
| "dict_get JNull k dflt = Inl AttributeError"
| "dict_get (JBool b) k dflt = Inl AttributeError"
| "dict_get (JNum n) k dflt = Inl AttributeError"
| "dict_get (JStr s) k dflt = Inl AttributeError"
| "dict_get (JArr xs) k dflt = Inl AttributeError"

text \<open>The same lookup on the pairs of a value already known to be a dict.\<close>

definition get_or :: "(string \<times> json) list \<Rightarrow> string \<Rightarrow> json \<Rightarrow> json" where
  "get_or kvs k dflt = (case map_of kvs k of None \<Rightarrow> dflt | Some v \<Rightarrow> v)"

text \<open>
  Python's \<^verbatim>\<open>==\<close> on two decoded values. A bool is the integer 0 or 1
  (\<^verbatim>\<open>True == 1\<close>), lists are equal when their items are, position by position, and dicts
  when they have the same keys with equal values, in whatever order the keys were
  inserted; values of different kinds are unequal. \<open>py_canon\<close> maps a value to the
  representative of the values equal to it: bools become integers, and the pairs of a dict
  are stripped of shadowed keys and sorted by key.
\<close>

primrec py_canon :: "json \<Rightarrow> json" where
  "py_canon JNull = JNull"
| "py_canon (JBool b) = JNum (if b then 1 else 0)"
| "py_canon (JNum n) = JNum n"
| "py_canon (JStr s) = JStr s"
| "py_canon (JArr xs) = JArr (map py_canon xs)"
| "py_canon (JObj kvs) =
     JObj (sort_key fst (AList.clearjunk (map (map_prod id py_canon) kvs)))"

definition py_eq :: "json \<Rightarrow> json \<Rightarrow> bool" where
  "py_eq a b = (py_canon a = py_canon b)"

text \<open>
  The instants a \<^verbatim>\<open>datetime\<close> can hold, as Unix seconds: from the first second of
  year 1 to the last second of year 9999.
\<close>

definition datetime_min :: int where
  "datetime_min = - 62135596800"

definition datetime_max :: int where
  "datetime_max = 253402300799"

definition representable :: "int \<Rightarrow> bool" where
  "representable t = (datetime_min \<le> t \<and> t \<le> datetime_max)"

text \<open>
  What \<^verbatim>\<open>datetime.fromtimestamp\<close> raises for an integer outside that range (CPython
  on 64-bit Linux): \<^verbatim>\<open>ValueError\<close> while the C library can still compute the year,
  \<^verbatim>\<open>OSError\<close> beyond that, \<^verbatim>\<open>OverflowError\<close> when the number does not fit the
  platform's \<^verbatim>\<open>time_t\<close>.
\<close>

definition timestamp_error :: "int \<Rightarrow> py_exc" where
  "timestamp_error n =
     (if - 67768040609740800 \<le> n \<and> n \<le> 67768036191676799 then ValueError
      else if - 9223372036854775808 \<le> n \<and> n \<le> 9223372036854775807 then OSError
      else OverflowError)"

text \<open>
  \<^verbatim>\<open>datetime.fromtimestamp(v, tz=pytz.UTC)\<close>: an instant is its Unix time in seconds.
  A bool is an int in Python; any other non-number raises \<^verbatim>\<open>TypeError\<close>.
\<close>

fun fromtimestamp :: "json \<Rightarrow> py_exc + int" where
  "fromtimestamp (JNum n) = (if representable n then Inr n else Inl (timestamp_error n))"
| "fromtimestamp (JBool b) = Inr (if b then 1 else 0)"
| "fromtimestamp JNull = Inl TypeError"
| "fromtimestamp (JStr s) = Inl TypeError"
| "fromtimestamp (JArr xs) = Inl TypeError"
| "fromtimestamp (JObj kvs) = Inl TypeError"

section \<open>The data model of hdhr\_client.py\<close>

record ChannelInfo =
  ch_guide_number :: json
  ch_guide_name :: json
  ch_url :: json
  ch_image_url :: json

text \<open>The three times of a record are instants a \<^verbatim>\<open>datetime\<close> holds, in Unix seconds.\<close>

record ProgramInfo =
  title :: json
  start_time :: int
  end_time :: int
  guide_number :: json
  synopsis :: json
  episode_title :: json
  episode_number :: json
  image_url :: json
  original_airdate :: "int option"
  filters :: json
  first :: json

text \<open>
  The client raises one exception class, \<^verbatim>\<open>HDHomeRunAPIError\<close>, told apart by its
  message; each constructor is one \<^verbatim>\<open>raise\<close> site.
\<close>

datatype api_error =
    No_Devices_Discovered
  | Lineup_Failed
  | Lineup_Invalid_JSON
  | Forbidden_All_Endpoints_And_User_Agents
  | HTTP_Error int
  | Failed_To_Retrieve
  | Failed_From_Any_Endpoint
  | EPG_Invalid_JSON
  | Unexpected_Error py_exc

text \<open>What a call that may also let a Python exception escape ends with.\<close>

datatype failure = API_Error api_error | Uncaught py_exc

text \<open>
  What \<^verbatim>\<open>urlopen\<close> followed by \<^verbatim>\<open>json.loads(response.read().decode())\<close> ends
  with: the decoded document, an \<^verbatim>\<open>HTTPError\<close> with its status code, another
  \<^verbatim>\<open>URLError\<close>, a \<^verbatim>\<open>JSONDecodeError\<close>, or some other exception (a timeout while
  reading, a decoding error).
\<close>

datatype response =
    Resp_OK json
  | Resp_HTTPError int
  | Resp_URLError
  | Resp_JSONDecodeError
  | Resp_OtherError py_exc

section \<open>Parsing a guide entry\<close>

text \<open>
  \<^verbatim>\<open>_parse_program_data\<close>. Subscripting \<^verbatim>\<open>program_data["StartTime"]\<close> raises
  \<^verbatim>\<open>TypeError\<close> on a value that is not a dict and \<^verbatim>\<open>KeyError\<close> on a dict without
  the key. No comparison of the two times is made.
\<close>

definition parse_program_data :: "json \<Rightarrow> json \<Rightarrow> py_exc + ProgramInfo" where
  "parse_program_data program_data guide_number' =
     (case program_data of
        JObj kvs \<Rightarrow>
          (case map_of kvs ''StartTime'' of
             None \<Rightarrow> Inl KeyError
           | Some sv \<Rightarrow>
          (case fromtimestamp sv of
             Inl e \<Rightarrow> Inl e
           | Inr start_time' \<Rightarrow>
          (case map_of kvs ''EndTime'' of
             None \<Rightarrow> Inl KeyError
           | Some ev \<Rightarrow>
          (case fromtimestamp ev of
             Inl e \<Rightarrow> Inl e
           | Inr end_time' \<Rightarrow>
          (case (case map_of kvs ''OriginalAirdate'' of
                   None \<Rightarrow> Inr None
                 | Some av \<Rightarrow>
                     (case fromtimestamp av of Inl e \<Rightarrow> Inl e | Inr a \<Rightarrow> Inr (Some a))) of
             Inl e \<Rightarrow> Inl e
           | Inr original_airdate' \<Rightarrow>
               Inr \<lparr> title = get_or kvs ''Title'' (JStr ''''),
                     start_time = start_time',
                     end_time = end_time',
                     guide_number = guide_number',
                     synopsis = get_or kvs ''Synopsis'' JNull,
                     episode_title = get_or kvs ''EpisodeTitle'' JNull,
                     episode_number = get_or kvs ''EpisodeNumber'' JNull,
                     image_url = get_or kvs ''ImageURL'' JNull,
                     original_airdate = original_airdate',
                     filters = get_or kvs ''Filter'' (JArr []),
                     first = get_or kvs ''First'' JNull \<rparr>)))))
      | _ \<Rightarrow> Inl TypeError)"

section \<open>Deduplication of overlapping windows\<close>

text \<open>
  The duplicate test of \<^verbatim>\<open>get_epg_data\<close>: a record already in \<^verbatim>\<open>programs\<close> with an
  equal start time, title and guide number, each compared with \<^verbatim>\<open>==\<close>. Two aware
  datetimes are equal when they are the same instant.
\<close>

definition is_duplicate :: "ProgramInfo list \<Rightarrow> ProgramInfo \<Rightarrow> bool" where
  "is_duplicate programs program =
     list_ex (\<lambda>p. start_time p = start_time program \<and> py_eq (title p) (title program) \<and>
                   py_eq (guide_number p) (guide_number program)) programs"

definition add_unique :: "ProgramInfo list \<Rightarrow> ProgramInfo \<Rightarrow> ProgramInfo list" where
  "add_unique programs program =
     (if \<not> is_duplicate programs program then programs @ [program] else programs)"

text \<open>
  The reduction the fetch loop performs on the stream of parsed records, taken on its
  own: each record is appended unless it is a duplicate of one already kept.
\<close>

definition dedup :: "ProgramInfo list \<Rightarrow> ProgramInfo list" where
  "dedup stream = foldl add_unique [] stream"

text \<open>
  The key of the specification, (start time, title, guide number): two records have the
  same key exactly when the duplicate test holds of them.
\<close>

definition dedup_key :: "ProgramInfo \<Rightarrow> int \<times> json \<times> json" where
  "dedup_key p = (start_time p, py_canon (title p), py_canon (guide_number p))"

text \<open>
  Deduplication as the specification words it: of the records that share a key, the one
  seen first is kept, and the kept records stay in the order in which they were seen.
\<close>

fun keep_first_seen :: "ProgramInfo list \<Rightarrow> ProgramInfo list" where
  "keep_first_seen [] = []"
| "keep_first_seen (p # ps) =
     p # keep_first_seen (filter (\<lambda>q. dedup_key q \<noteq> dedup_key p) ps)"

section \<open>Processing one guide response\<close>

text \<open>The inner loop over the \<^verbatim>\<open>Guide\<close> entries of one channel.\<close>

fun process_guide :: "json \<Rightarrow> json list \<Rightarrow> ProgramInfo list \<Rightarrow> py_exc + ProgramInfo list" where
  "process_guide g [] programs = Inr programs"
| "process_guide g (program_data # rest) programs =
     (case parse_program_data program_data g of
        Inl e \<Rightarrow> Inl e
      | Inr program \<Rightarrow> process_guide g rest (add_unique programs program))"

text \<open>
  The outer loop over the channel objects of the response. A group whose guide number
  equals no guide number of the lineup is skipped.
\<close>

fun process_channels ::
  "ChannelInfo list \<Rightarrow> json list \<Rightarrow> ProgramInfo list \<Rightarrow> py_exc + ProgramInfo list" where
  "process_channels channels [] programs = Inr programs"
| "process_channels channels (channel_data # rest) programs =
     (case dict_get channel_data ''GuideNumber'' (JStr '''') of
        Inl e \<Rightarrow> Inl e
      | Inr g \<Rightarrow>
          if \<not> list_ex (\<lambda>ch. py_eq (ch_guide_number ch) g) channels
          then process_channels channels rest programs
          else
            (case dict_get channel_data ''Guide'' (JArr []) of
               Inl e \<Rightarrow> Inl e
             | Inr guide \<Rightarrow>
            (case py_iter guide of
               Inl e \<Rightarrow> Inl e
             | Inr entries \<Rightarrow>
            (case process_guide g entries programs of
               Inl e \<Rightarrow> Inl e
             | Inr programs' \<Rightarrow> process_channels channels rest programs'))))"

definition process_response ::
  "ChannelInfo list \<Rightarrow> json \<Rightarrow> ProgramInfo list \<Rightarrow> py_exc + ProgramInfo list" where
  "process_response channels epg_data programs =
     (case py_iter epg_data of
        Inl e \<Rightarrow> Inl e
      | Inr groups \<Rightarrow> process_channels channels groups programs)"

section \<open>The windowed fetch with endpoint and user agent fallback\<close>

definition api_endpoints :: "string list" where
  "api_endpoints =
     [''https://api.hdhomerun.com/api/guide'', ''https://my.hdhomerun.com/api/guide.php'']"

definition user_agents :: "string list" where
  "user_agents =
     [''Mozilla/5.0 (Linux; HDHomeRun-XMLTV-Converter)'',
      ''Mozilla/5.0 (Windows NT 10.0; Win64; x64) AppleWebKit/537.36 (KHTML, like Gecko) Chrome/91.0.4472.124 Safari/537.36'',
      ''HDHomeRun/1.0'',
      ''Python-urllib/3.11'']"

text \<open>
  The guide service: what the POST to endpoint number \<open>endpoint_idx\<close> with
  \<^verbatim>\<open>Start=timestamp\<close> and the user agent number \<open>ua_idx\<close> ends with. Within one fetch
  every (timestamp, endpoint) pair is requested at most once.
\<close>

type_synonym guide_service = "int \<Rightarrow> nat \<Rightarrow> nat \<Rightarrow> response"

record fetch_state =
  programs :: "ProgramInfo list"
  current_ua_index :: nat
  consecutive_403_errors :: nat

text \<open>
  The \<^verbatim>\<open>for endpoint_idx, url_base in enumerate(api_endpoints)\<close> loop of one window.
  \<open>Inl\<close> is a raised \<^verbatim>\<open>HDHomeRunAPIError\<close> (after the handlers at the end of
  \<^verbatim>\<open>get_epg_data\<close> have wrapped other exceptions); \<open>Inr (success, state)\<close> is the
  loop left by \<^verbatim>\<open>break\<close> or by running out of endpoints.
\<close>

fun try_endpoints ::
  "guide_service \<Rightarrow> ChannelInfo list \<Rightarrow> int \<Rightarrow> nat list \<Rightarrow> fetch_state \<Rightarrow>
   api_error + bool \<times> fetch_state" where
  "try_endpoints service channels timestamp [] st = Inr (False, st)"
| "try_endpoints service channels timestamp (endpoint_idx # rest) st =
     (case service timestamp endpoint_idx (current_ua_index st) of
        Resp_OK epg_data \<Rightarrow>
          (case process_response channels epg_data (programs st) of
             Inl e \<Rightarrow> Inl (Unexpected_Error e)
           | Inr programs' \<Rightarrow>
               Inr (True, st\<lparr>programs := programs', consecutive_403_errors := 0\<rparr>))
      | Resp_HTTPError code \<Rightarrow>
          if code = 403 then
            (let st1 = st\<lparr>consecutive_403_errors := consecutive_403_errors st + 1\<rparr> in
             if endpoint_idx = length api_endpoints - 1 then
               (let st2 = st1\<lparr>current_ua_index :=
                                (current_ua_index st1 + 1) mod length user_agents\<rparr> in
                if consecutive_403_errors st2 \<ge> length api_endpoints * length user_agents
                then Inl Forbidden_All_Endpoints_And_User_Agents
                else try_endpoints service channels timestamp rest st2)
             else try_endpoints service channels timestamp rest st1)
          else Inl (HTTP_Error code)
      | Resp_URLError \<Rightarrow>
          if endpoint_idx = length api_endpoints - 1 then Inl Failed_To_Retrieve
          else try_endpoints service channels timestamp rest st
      | Resp_JSONDecodeError \<Rightarrow> Inl EPG_Invalid_JSON
      | Resp_OtherError e \<Rightarrow> Inl (Unexpected_Error e))"

text \<open>
  The \<^verbatim>\<open>while current_time < end_time\<close> loop. Times are Unix seconds. The loop does
  not end when \<open>hours_increment \<le> 0\<close> and every window succeeds: \<open>None\<close> is that run.
\<close>

partial_function (option) fetch_windows ::
  "guide_service \<Rightarrow> ChannelInfo list \<Rightarrow> int \<Rightarrow> int \<Rightarrow> int \<Rightarrow> fetch_state \<Rightarrow>
   (api_error + ProgramInfo list) option" where
  "fetch_windows service channels hours_increment end_time' current_time st =
     (if current_time < end_time' then
        (case try_endpoints service channels current_time [0..<length api_endpoints] st of
           Inl e \<Rightarrow> Some (Inl e)
         | Inr r \<Rightarrow>
             if \<not> fst r then Some (Inl Failed_From_Any_Endpoint)
             else fetch_windows service channels hours_increment end_time'
                    (current_time + hours_increment * 3600) (snd r))
      else Some (Inr (programs st)))"

text \<open>
  \<^verbatim>\<open>get_epg_data\<close>, once the credential and the lineup are there: \<open>now\<close> is
  \<^verbatim>\<open>datetime.now\<close> in seconds, \<open>channels\<close> is \<^verbatim>\<open>self._channels\<close>.
\<close>

definition get_epg_data ::
  "guide_service \<Rightarrow> ChannelInfo list \<Rightarrow> int \<Rightarrow> int \<Rightarrow> int \<Rightarrow>
   (api_error + ProgramInfo list) option" where
  "get_epg_data service channels now days hours_increment =
     fetch_windows service channels hours_increment (now + days * 86400) now
       \<lparr>programs = [], current_ua_index = 0, consecutive_403_errors = 0\<rparr>"

text \<open>
  The document a window is answered with: the one the first endpoint returns, or the one
  the second endpoint returns after the first has fallen through (with a \<^verbatim>\<open>URLError\<close>
  that is not an HTTP status, or with a 403). \<open>ua\<close> is the user agent in use.
\<close>

definition answered :: "guide_service \<Rightarrow> int \<Rightarrow> nat \<Rightarrow> json \<Rightarrow> bool" where
  "answered service timestamp ua epg_data =
     (service timestamp 0 ua = Resp_OK epg_data \<or>
      ((service timestamp 0 ua = Resp_URLError \<or> service timestamp 0 ua = Resp_HTTPError 403) \<and>
       service timestamp 1 ua = Resp_OK epg_data))"

text \<open>
  An entry of the guide of a lineup channel: \<open>groups\<close> are the channel objects of a
  response, \<open>g\<close> is the guide number of the object that holds the entry.
\<close>

definition lineup_entry :: "ChannelInfo list \<Rightarrow> json list \<Rightarrow> json \<Rightarrow> json \<Rightarrow> bool" where
  "lineup_entry channels groups g program_data =
     list_ex (\<lambda>channel_data.
        case channel_data of
          JObj ckvs \<Rightarrow>
            g = get_or ckvs ''GuideNumber'' (JStr '''') \<and>
            list_ex (\<lambda>ch. py_eq (ch_guide_number ch) g) channels \<and>
            (case py_iter (get_or ckvs ''Guide'' (JArr [])) of
               Inl e \<Rightarrow> False
             | Inr entries \<Rightarrow> program_data \<in> set entries)
        | _ \<Rightarrow> False) groups"

section \<open>Device discovery\<close>





text \<open>
  The set of hosts the loop visits: the configured host, the hosts that answered the
  broadcast, and the two common names.
\<close>

definition candidate_hosts :: "string \<Rightarrow> string set \<Rightarrow> string set" where
  "candidate_hosts host additional_hosts =
     {host} \<union> additional_hosts \<union> {''hdhomerun.local'', ''hdhomerun''}"



section \<open>The channel lineup\<close>

text \<open>The \<^verbatim>\<open>ChannelInfo\<close> built from one item of the lineup.\<close>

definition parse_channel :: "json \<Rightarrow> py_exc + ChannelInfo" where
  "parse_channel channel_data =
     (case dict_get channel_data ''GuideNumber'' (JStr '''') of
        Inl e \<Rightarrow> Inl e
      | Inr number \<Rightarrow>
     (case dict_get channel_data ''GuideName'' (JStr ''Unknown'') of
        Inl e \<Rightarrow> Inl e
      | Inr name \<Rightarrow>
     (case dict_get channel_data ''URL'' (JStr '''') of
        Inl e \<Rightarrow> Inl e
      | Inr url \<Rightarrow>
     (case dict_get channel_data ''ImageURL'' JNull of
        Inl e \<Rightarrow> Inl e
      | Inr icon \<Rightarrow>
          Inr \<lparr>ch_guide_number = number, ch_guide_name = name, ch_url = url,
               ch_image_url = icon\<rparr>))))"

fun parse_channels :: "json list \<Rightarrow> py_exc + ChannelInfo list" where
  "parse_channels [] = Inr []"
| "parse_channels (channel_data # rest) =
     (case parse_channel channel_data of
        Inl e \<Rightarrow> Inl e
      | Inr channel \<Rightarrow>
          (case parse_channels rest of Inl e \<Rightarrow> Inl e | Inr channels \<Rightarrow> Inr (channel # channels)))"

text \<open>
  \<^verbatim>\<open>get_channels\<close>, from the request for \<^verbatim>\<open>lineup.json\<close> on (the credential is
  there). \<^verbatim>\<open>HTTPError\<close> is a \<^verbatim>\<open>URLError\<close>; the two handlers catch nothing else, so
  any other exception escapes as it is.
\<close>

definition get_channels :: "response \<Rightarrow> failure + ChannelInfo list" where
  "get_channels lineup =
     (case lineup of
        Resp_OK data \<Rightarrow>
          (case py_iter data of
             Inl e \<Rightarrow> Inl (Uncaught e)
           | Inr items \<Rightarrow>
               (case parse_channels items of
                  Inl e \<Rightarrow> Inl (Uncaught e)
                | Inr channels \<Rightarrow> Inr channels))
      | Resp_HTTPError code \<Rightarrow> Inl (API_Error Lineup_Failed)
      | Resp_URLError \<Rightarrow> Inl (API_Error Lineup_Failed)
      | Resp_JSONDecodeError \<Rightarrow> Inl (API_Error Lineup_Invalid_JSON)
      | Resp_OtherError e \<Rightarrow> Inl (Uncaught e))"

section \<open>The XMLTV converter\<close>

subsection \<open>Elements, strings and numbers\<close>

text \<open>
  An \<^verbatim>\<open>xml.etree.ElementTree.Element\<close>: tag, attributes in insertion order, text and
  children. \<^verbatim>\<open>ET.SubElement(parent, ...)\<close> appends a new child to the parent; the child
  is filled in afterwards in the source, and here it is built first and appended whole
  (or, where an exception can interrupt the filling, appended as far as it got).
\<close>

datatype xml =
  Element (tag: string) (attrib: "(string \<times> json) list") (elem_text: json) (children: "xml list")

definition append_child :: "xml \<Rightarrow> xml \<Rightarrow> xml" where
  "append_child parent child =
     Element (tag parent) (attrib parent) (elem_text parent) (children parent @ [child])"

text \<open>What the converter writes to its logger at warning or error level.\<close>

datatype log_entry =
    Could_Not_Parse_Episode_Number json
  | Error_Processing_Episode_Number json py_exc
  | Error_Processing_Episode_Status json py_exc
  | Error_Adding_Program json py_exc

text \<open>
  The whitespace \<^verbatim>\<open>str.strip\<close> removes, among the code points below 256: the ASCII
  whitespace, the four separators 28 to 31, NEL (133) and the no-break space (160).
\<close>

definition is_space :: "char \<Rightarrow> bool" where
  "is_space c = ((of_char c :: nat) \<in> {9, 10, 11, 12, 13, 28, 29, 30, 31, 32, 133, 160})"

text \<open>
  The whitespace \<^verbatim>\<open>int\<close> skips around a number: it reads NEL and the no-break space
  as spaces, but not the separators 28 to 31.
\<close>

definition is_int_space :: "char \<Rightarrow> bool" where
  "is_int_space c = ((of_char c :: nat) \<in> {9, 10, 11, 12, 13, 32, 133, 160})"

text \<open>The decimal digits; no code point from 128 to 255 is one.\<close>

definition is_digit :: "char \<Rightarrow> bool" where
  "is_digit c = (48 \<le> (of_char c :: nat) \<and> (of_char c :: nat) \<le> 57)"

definition digit_val :: "char \<Rightarrow> nat" where
  "digit_val c = of_char c - 48"

definition digit_char :: "nat \<Rightarrow> char" where
  "digit_char n = char_of (48 + n)"

definition strip :: "string \<Rightarrow> string" where
  "strip s = rev (dropWhile is_space (rev (dropWhile is_space s)))"

definition digits_val :: "string \<Rightarrow> nat" where
  "digits_val ds = foldl (\<lambda>a c. 10 * a + digit_val c) 0 ds"

text \<open>Digits with single underscores between them, as \<^verbatim>\<open>int\<close> accepts.\<close>

fun digits_tail_ok :: "string \<Rightarrow> bool" where
  "digits_tail_ok [] = True"
| "digits_tail_ok [c] = is_digit c"
| "digits_tail_ok (c # d # r) =
     (if c = CHR ''_'' then is_digit d \<and> digits_tail_ok r
      else is_digit c \<and> digits_tail_ok (d # r))"

fun digits_ok :: "string \<Rightarrow> bool" where
  "digits_ok [] = False"
| "digits_ok (c # r) = (is_digit c \<and> digits_tail_ok r)"

text \<open>
  CPython's limit on the digits of an integer converted from or to a string (the default
  of \<^verbatim>\<open>sys.get_int_max_str_digits()\<close>; the program does not change it).
\<close>

definition int_max_str_digits :: nat where
  "int_max_str_digits = 4300"

text \<open>
  \<^verbatim>\<open>int(s)\<close> on a string: surrounding whitespace, an optional sign, decimal digits
  with single underscores between them, at most 4300 digits (leading zeros count,
  underscores do not). \<open>None\<close> is \<^verbatim>\<open>ValueError\<close>.
\<close>

definition py_int :: "string \<Rightarrow> int option" where
  "py_int s =
     (let t = rev (dropWhile is_int_space (rev (dropWhile is_int_space s)));
          negative = (t \<noteq> [] \<and> hd t = CHR ''-'');
          body = (if t \<noteq> [] \<and> (hd t = CHR ''-'' \<or> hd t = CHR ''+'') then tl t else t)
      in if digits_ok body \<and> length (filter is_digit body) \<le> int_max_str_digits
         then Some ((if negative then - 1 else 1) * int (digits_val (filter is_digit body)))
         else None)"

text \<open>The decimal text of an integer, as an f-string renders it.\<close>

fun show_nat :: "nat \<Rightarrow> string" where
  "show_nat n = (if n < 10 then [digit_char n] else show_nat (n div 10) @ [digit_char (n mod 10)])"

declare show_nat.simps [simp del]

definition show_int :: "int \<Rightarrow> string" where
  "show_int i = (if i < 0 then CHR ''-'' # show_nat (nat (- i)) else show_nat (nat i))"

text \<open>
  An integer as a replacement field of an f-string: its decimal text, or \<^verbatim>\<open>ValueError\<close>
  (\<open>None\<close>) when the text would have more than 4300 digits.
\<close>

definition py_str_int :: "int \<Rightarrow> string option" where
  "py_str_int i =
     (if length (show_nat (nat \<bar>i\<bar>)) > int_max_str_digits then None else Some (show_int i))"

text \<open>\<^verbatim>\<open>s.index(c)\<close> for a character that occurs in \<open>s\<close>, and the slice \<^verbatim>\<open>s[a:b]\<close>.\<close>

definition str_index :: "string \<Rightarrow> char \<Rightarrow> nat" where
  "str_index s c = length (takeWhile (\<lambda>x. x \<noteq> c) s)"

definition slice :: "string \<Rightarrow> nat \<Rightarrow> nat \<Rightarrow> string" where
  "slice s a b = take (b - a) (drop a s)"

text \<open>
  \<^verbatim>\<open>c in v\<close> for a one-character string \<open>c\<close>: a substring test on a string, a
  membership test on a list and on the keys of a dict, \<^verbatim>\<open>TypeError\<close> otherwise.
\<close>

fun contains_char :: "json \<Rightarrow> char \<Rightarrow> py_exc + bool" where
  "contains_char (JStr s) c = Inr (c \<in> set s)"
| "contains_char (JArr xs) c = Inr (JStr [c] \<in> set xs)"
| "contains_char (JObj kvs) c = Inr ([c] \<in> fst ` set kvs)"
| "contains_char JNull c = Inl TypeError"
| "contains_char (JBool b) c = Inl TypeError"
| "contains_char (JNum n) c = Inl TypeError"

subsection \<open>The converter\<close>

text \<open>
  \<^verbatim>\<open>XMLTVConverter\<close>. The channels and programs it converts are the records the
  client has built from decoded documents (\<^verbatim>\<open>main.py\<close> passes it the results of
  \<^verbatim>\<open>get_channels\<close> and \<^verbatim>\<open>get_epg_data\<close>). \<open>timezone\<close> is the target zone, given by
  its UTC offset in seconds at an instant. The library functions the converter calls are
  carried along as parameters: \<open>strftime\<close> formats a local time (wall clock seconds and
  UTC offset), and the two substitutions of \<^verbatim>\<open>_clean_text\<close> are
  \<open>strip_feature_tags\<close> and \<open>strip_episode_info\<close>.
\<close>

record XMLTVConverter =
  timezone :: "int \<Rightarrow> int"
  strftime :: "string \<Rightarrow> int \<times> int \<Rightarrow> string"
  strip_feature_tags :: "string \<Rightarrow> string"
  strip_episode_info :: "string \<Rightarrow> string"

text \<open>
  The local time of an instant in the target zone, as wall clock seconds and offset, and
  whether a \<^verbatim>\<open>datetime\<close> can hold it.
\<close>

definition local_time :: "XMLTVConverter \<Rightarrow> int \<Rightarrow> int \<times> int" where
  "local_time cv t = (t + timezone cv t, timezone cv t)"

definition in_zone :: "XMLTVConverter \<Rightarrow> int \<Rightarrow> bool" where
  "in_zone cv t = representable (t + timezone cv t)"

text \<open>
  \<^verbatim>\<open>dt.astimezone(self.timezone)\<close>: the zone adds its offset to the instant, which
  raises \<^verbatim>\<open>OverflowError\<close> when the local time leaves the years 1 to 9999. Then
  \<^verbatim>\<open>dt.replace(hour=0, minute=0, second=0, microsecond=0)\<close>. Two local times of the
  same zone compare by their wall clocks.
\<close>

definition astimezone :: "XMLTVConverter \<Rightarrow> int \<Rightarrow> py_exc + int \<times> int" where
  "astimezone cv t = (if in_zone cv t then Inr (local_time cv t) else Inl OverflowError)"

definition replace_midnight :: "int \<times> int \<Rightarrow> int \<times> int" where
  "replace_midnight d = (fst d - fst d mod 86400, snd d)"

text \<open>
  \<^verbatim>\<open>_add_episode_status\<close>: the element as the call leaves it and the warning it
  logs. The two conversions to the target zone are inside the \<^verbatim>\<open>try\<close>; when one of
  them raises, nothing has been appended yet, and the handler logs a warning.
\<close>

definition add_episode_status ::
  "XMLTVConverter \<Rightarrow> xml \<Rightarrow> ProgramInfo \<Rightarrow> xml \<times> log_entry list" where
  "add_episode_status cv program_elem program =
     (if first program = JBool True then
        (append_child program_elem (Element ''new'' [] JNull []), [])
      else
        (case original_airdate program of
           Some airdate \<Rightarrow>
             (case astimezone cv (start_time program) of
                Inl exc \<Rightarrow>
                  (program_elem, [Error_Processing_Episode_Status (title program) exc])
              | Inr start_time' \<Rightarrow>
             (case astimezone cv airdate of
                Inl exc \<Rightarrow>
                  (program_elem, [Error_Processing_Episode_Status (title program) exc])
              | Inr air_date \<Rightarrow>
                  (let start_date = replace_midnight start_time';
                       air_date_only = replace_midnight air_date
                   in if fst air_date_only \<noteq> fst start_date then
                        (append_child program_elem
                           (Element ''previously-shown''
                              [(''start'', JStr (strftime cv ''%Y%m%d%H%M%S'' air_date))]
                              JNull []),
                         [])
                      else if first program = JBool False then
                        (append_child program_elem (Element ''previously-shown'' [] JNull []),
                         [])
                      else (program_elem, []))))
         | None \<Rightarrow>
             if first program = JBool False then
               (append_child program_elem (Element ''previously-shown'' [] JNull []), [])
             else (program_elem, [])))"

text \<open>
  \<^verbatim>\<open>_add_episode_numbering\<close>. The onscreen element is appended first. A value that
  is not a string raises inside the outer \<^verbatim>\<open>try\<close> (at \<^verbatim>\<open>in\<close>, at \<^verbatim>\<open>.index\<close> or at
  \<^verbatim>\<open>int\<close>), which logs a warning. The \<^verbatim>\<open>xmltv_ns\<close> element is created before its
  text is formatted; when the formatting raises \<^verbatim>\<open>ValueError\<close>, the element stays
  without text and the inner handler logs its warning.
\<close>

definition add_episode_numbering :: "xml \<Rightarrow> json \<Rightarrow> xml \<times> log_entry list" where
  "add_episode_numbering program_elem episode_number' =
     (let onscreen = append_child program_elem
            (Element ''episode-num'' [(''system'', JStr ''onscreen'')] episode_number' [])
      in case contains_char episode_number' CHR ''S'' of
           Inl exc \<Rightarrow> (onscreen, [Error_Processing_Episode_Number episode_number' exc])
         | Inr has_s \<Rightarrow>
        (case (if has_s then contains_char episode_number' CHR ''E'' else Inr False) of
           Inl exc \<Rightarrow> (onscreen, [Error_Processing_Episode_Number episode_number' exc])
         | Inr has_both \<Rightarrow>
             if \<not> has_both then (onscreen, [])
             else
               (case episode_number' of
                  JStr s \<Rightarrow>
                    (let series_start = str_index s CHR ''S'' + 1;
                         series_end = str_index s CHR ''E'';
                         episode_start = str_index s CHR ''E'' + 1
                     in case py_int (slice s series_start series_end) of
                          None \<Rightarrow> (onscreen, [Could_Not_Parse_Episode_Number episode_number'])
                        | Some series \<Rightarrow>
                       (case py_int (drop episode_start s) of
                          None \<Rightarrow> (onscreen, [Could_Not_Parse_Episode_Number episode_number'])
                        | Some episode \<Rightarrow>
                       (case py_str_int (series - 1) of
                          None \<Rightarrow>
                            (append_child onscreen
                               (Element ''episode-num'' [(''system'', JStr ''xmltv_ns'')] JNull []),
                             [Could_Not_Parse_Episode_Number episode_number'])
                        | Some series_num \<Rightarrow>
                       (case py_str_int (episode - 1) of
                          None \<Rightarrow>
                            (append_child onscreen
                               (Element ''episode-num'' [(''system'', JStr ''xmltv_ns'')] JNull []),
                             [Could_Not_Parse_Episode_Number episode_number'])
                        | Some episode_num \<Rightarrow>
                            (append_child onscreen
                               (Element ''episode-num'' [(''system'', JStr ''xmltv_ns'')]
                                  (JStr (series_num @ ''.'' @ episode_num @ ''.0/0'')) []),
                             [])))))
                | JArr xs \<Rightarrow>
                    (onscreen, [Error_Processing_Episode_Number episode_number' TypeError])
                | _ \<Rightarrow>
                    (onscreen, [Error_Processing_Episode_Number episode_number' AttributeError]))))"

text \<open>
  \<^verbatim>\<open>_clean_text\<close>. The generator iterates over the value and takes \<^verbatim>\<open>ord\<close> of every
  item, which raises \<^verbatim>\<open>TypeError\<close> unless the item is a one-character string.
\<close>

fun chars_of :: "json list \<Rightarrow> string option" where
  "chars_of [] = Some []"
| "chars_of (JStr [c] # rest) = (case chars_of rest of None \<Rightarrow> None | Some cs \<Rightarrow> Some (c # cs))"
| "chars_of (v # rest) = None"

definition clean_text :: "XMLTVConverter \<Rightarrow> json \<Rightarrow> py_exc + string" where
  "clean_text cv v =
     (if \<not> truthy v then Inr ''''
      else
        (case py_iter v of
           Inl e \<Rightarrow> Inl e
         | Inr items \<Rightarrow>
             (case chars_of items of
                None \<Rightarrow> Inl TypeError
              | Some cs \<Rightarrow>
                  Inr (strip (strip_episode_info cv (strip_feature_tags cv
                    (filter (\<lambda>ch. (of_char ch :: nat) \<ge> 32 \<or>
                                   (of_char ch :: nat) \<in> {9, 10, 13}) cs)))))))"

text \<open>\<^verbatim>\<open>_add_channel\<close>.\<close>

definition add_channel :: "xml \<Rightarrow> ChannelInfo \<Rightarrow> xml" where
  "add_channel tv_root channel =
     append_child tv_root
       (Element ''channel'' [(''id'', ch_guide_number channel)] JNull
          (Element ''display-name'' [(''lang'', JStr ''en'')] (ch_guide_name channel) [] #
           (if truthy (ch_image_url channel)
            then [Element ''icon'' [(''src'', ch_image_url channel)] JNull []]
            else [])))"

text \<open>
  The body of \<^verbatim>\<open>_add_program\<close> from the title on, on the \<^verbatim>\<open>programme\<close> element: the
  element as far as it was filled, the exception that ended the filling if one was
  raised, and the warnings of the episode numbering and of the episode status.
\<close>

definition fill_programme ::
  "XMLTVConverter \<Rightarrow> xml \<Rightarrow> ProgramInfo \<Rightarrow> xml \<times> py_exc option \<times> log_entry list" where
  "fill_programme cv program_elem program =
     (let e1 = append_child program_elem
                 (Element ''title'' [(''lang'', JStr ''en'')] (title program) []);
          e2 = (if truthy (episode_title program)
                then append_child e1
                       (Element ''sub-title'' [(''lang'', JStr ''en'')] (episode_title program) [])
                else e1)
      in case (if truthy (synopsis program)
               then (case clean_text cv (synopsis program) of
                       Inl exc \<Rightarrow>
                         (append_child e2 (Element ''desc'' [(''lang'', JStr ''en'')] JNull []),
                          Some exc)
                     | Inr cleaned \<Rightarrow>
                         (append_child e2
                            (Element ''desc'' [(''lang'', JStr ''en'')] (JStr cleaned) []),
                          None))
               else (e2, None)) of
           (e3, Some exc) \<Rightarrow> (e3, Some exc, [])
         | (e3, None) \<Rightarrow>
        (case (if truthy (filters program)
               then (case py_iter (filters program) of
                       Inl exc \<Rightarrow> (e3, Some exc)
                     | Inr names \<Rightarrow>
                         (foldl (\<lambda>e filter_name. append_child e
                                   (Element ''category'' [(''lang'', JStr ''en'')] filter_name []))
                            e3 names,
                          None))
               else (e3, None)) of
           (e4, Some exc) \<Rightarrow> (e4, Some exc, [])
         | (e4, None) \<Rightarrow>
             (let e5 = (if truthy (image_url program)
                        then append_child e4
                               (Element ''icon'' [(''src'', image_url program)] JNull [])
                        else e4);
                  numbered = (if truthy (episode_number program)
                              then add_episode_numbering e5 (episode_number program)
                              else (e5, []));
                  status = add_episode_status cv (fst numbered) program
              in (fst status, None, snd numbered @ snd status))))"

text \<open>
  \<^verbatim>\<open>_add_program\<close>. The start and the end time are converted to the target zone
  first; when a conversion raises, no \<^verbatim>\<open>programme\<close> element is created. Once the
  element is created under the root it stays there, whether or not the rest of the body
  completes. Whatever is raised is logged as an error.
\<close>

definition add_program ::
  "XMLTVConverter \<Rightarrow> xml \<Rightarrow> ProgramInfo \<Rightarrow> xml \<times> log_entry list" where
  "add_program cv tv_root program =
     (case astimezone cv (start_time program) of
        Inl exc \<Rightarrow> (tv_root, [Error_Adding_Program (title program) exc])
      | Inr start_time' \<Rightarrow>
     (case astimezone cv (end_time program) of
        Inl exc \<Rightarrow> (tv_root, [Error_Adding_Program (title program) exc])
      | Inr end_time' \<Rightarrow>
          (let program_elem =
                 Element ''programme''
                   [(''start'', JStr (strftime cv ''%Y%m%d%H%M%S %z'' start_time')),
                    (''stop'', JStr (strftime cv ''%Y%m%d%H%M%S %z'' end_time')),
                    (''channel'', guide_number program)] JNull [];
               filled = fill_programme cv program_elem program
           in (append_child tv_root (fst filled),
               snd (snd filled) @
               (case fst (snd filled) of
                  None \<Rightarrow> []
                | Some exc \<Rightarrow> [Error_Adding_Program (title program) exc])))))"

text \<open>The loop of \<^verbatim>\<open>convert_to_xmltv\<close> over the programs.\<close>

fun add_programs ::
  "XMLTVConverter \<Rightarrow> xml \<times> log_entry list \<Rightarrow> ProgramInfo list \<Rightarrow> xml \<times> log_entry list" where
  "add_programs cv acc [] = acc"
| "add_programs cv acc (program # rest) =
     (let r = add_program cv (fst acc) program
      in add_programs cv (fst r, snd acc @ snd r) rest)"

definition convert_to_xmltv ::
  "XMLTVConverter \<Rightarrow> ChannelInfo list \<Rightarrow> ProgramInfo list \<Rightarrow> string \<Rightarrow> string \<Rightarrow>
   xml \<times> log_entry list" where
  "convert_to_xmltv cv channels programs' generator_name generator_url =
     (let tv_root = Element ''tv''
            [(''source-info-name'', JStr ''HDHomeRun''),
             (''generator-info-name'', JStr generator_name),
             (''generator-info-url'', JStr generator_url)] JNull []
      in add_programs cv (foldl add_channel tv_root channels, []) programs')"

subsection \<open>The decision table of the specification\<close>

text \<open>
  The repeat/new decision as the specification words it: the first-run flag as a
  three-valued status, the calendar date of an instant in the target zone, and the marker
  to emit, if any.
\<close>

datatype first_run = Is_First_Run | Not_First_Run | Unknown_First_Run

datatype status_marker = New_Marker | Previously_Shown "string option"

fun is_first_run :: "json \<Rightarrow> first_run" where
  "is_first_run (JBool b) = (if b then Is_First_Run else Not_First_Run)"
| "is_first_run v = Unknown_First_Run"

definition calendar_date :: "XMLTVConverter \<Rightarrow> int \<Rightarrow> int" where
  "calendar_date cv t = (t + timezone cv t) div 86400"

definition status_decision ::
  "XMLTVConverter \<Rightarrow> first_run \<Rightarrow> int \<Rightarrow> int option \<Rightarrow> status_marker option" where
  "status_decision cv is_first start airdate =
     (if is_first = Is_First_Run then Some New_Marker
      else
        (case airdate of
           Some a \<Rightarrow>
             if calendar_date cv start \<noteq> calendar_date cv a
             then Some (Previously_Shown
                    (Some (strftime cv ''%Y%m%d%H%M%S'' (a + timezone cv a, timezone cv a))))
             else if is_first = Not_First_Run then Some (Previously_Shown None)
             else None
         | None \<Rightarrow> if is_first = Not_First_Run then Some (Previously_Shown None) else None))"

fun marker_element :: "status_marker \<Rightarrow> xml" where
  "marker_element New_Marker = Element ''new'' [] JNull []"
| "marker_element (Previously_Shown None) = Element ''previously-shown'' [] JNull []"
| "marker_element (Previously_Shown (Some stamp)) =
     Element ''previously-shown'' [(''start'', JStr stamp)] JNull []"

subsection \<open>Example converter and programme\<close>

text \<open>A zone five hours behind UTC; the formatter shows the seconds it is given.\<close>

definition example_converter :: XMLTVConverter where
  "example_converter =
     \<lparr>timezone = (\<lambda>t. - 18000),
      strftime = (\<lambda>fmt d. show_int (fst d)),
      strip_feature_tags = (\<lambda>s. s),
      strip_episode_info = (\<lambda>s. s)\<rparr>"

definition example_programme :: xml where
  "example_programme = Element ''programme'' [(''channel'', JStr ''5.1'')] JNull []"

section \<open>Example inputs\<close>

definition example_channel :: ChannelInfo where
  "example_channel =
     \<lparr>ch_guide_number = JStr ''5.1'', ch_guide_name = JStr ''KXYZ'', ch_url = JStr '''',
      ch_image_url = JNull\<rparr>"

definition rec_a :: ProgramInfo where
  "rec_a =
     \<lparr>title = JStr ''News'', start_time = 0, end_time = 60, guide_number = JStr ''5.1'',
      synopsis = JStr ''first'', episode_title = JNull, episode_number = JNull,
      image_url = JNull, original_airdate = None, filters = JArr [], first = JNull\<rparr>"

text \<open>A guide response with one channel group holding the given entries.\<close>

definition guide_of :: "json list \<Rightarrow> json" where
  "guide_of entries = JArr [JObj [(''GuideNumber'', JStr ''5.1''), (''Guide'', JArr entries)]]"

definition rec_b :: ProgramInfo where
  "rec_b =
     \<lparr>title = JStr ''Weather'', start_time = 60, end_time = 90, guide_number = JStr ''5.1'',
      synopsis = JNull, episode_title = JNull, episode_number = JNull,
      image_url = JNull, original_airdate = None, filters = JArr [], first = JNull\<rparr>"


text \<open>The record of a guide entry that starts at 200 and ends at 100.\<close>

definition reversed_record :: ProgramInfo where
  "reversed_record =
     \<lparr>title = JStr '''', start_time = 200, end_time = 100, guide_number = JStr ''5.1'',
      synopsis = JNull, episode_title = JNull, episode_number = JNull,
      image_url = JNull, original_airdate = None, filters = JArr [], first = JNull\<rparr>"

section \<open>Properties of deduplication\<close>

lemma is_duplicate_iff: "is_duplicate ps p \<longleftrightarrow> dedup_key p \<in> dedup_key ` set ps"
  unfolding is_duplicate_def dedup_key_def py_eq_def list_ex_iff image_iff
  by (metis prod.inject)

lemma keys_add_unique:
  "dedup_key ` set (add_unique acc p) = insert (dedup_key p) (dedup_key ` set acc)"
  by (auto simp: add_unique_def is_duplicate_iff)

lemma keys_foldl_add_unique:
  "dedup_key ` set (foldl add_unique acc xs) = dedup_key ` set acc \<union> dedup_key ` set xs"
  by (induction xs arbitrary: acc) (auto simp: keys_add_unique)

lemma distinct_add_unique:
  "distinct (map dedup_key acc) \<Longrightarrow> distinct (map dedup_key (add_unique acc p))"
  by (auto simp: add_unique_def is_duplicate_iff)

lemma distinct_foldl_add_unique:
  "distinct (map dedup_key acc) \<Longrightarrow> distinct (map dedup_key (foldl add_unique acc xs))"
  by (induction xs arbitrary: acc) (auto simp: distinct_add_unique)

text \<open>On a stream without two records of the same key, nothing is dropped.\<close>

lemma foldl_add_unique_distinct:
  "distinct (map dedup_key (acc @ xs)) \<Longrightarrow> foldl add_unique acc xs = acc @ xs"
proof (induction xs arbitrary: acc)
  case Nil
  then show ?case by simp
next
  case (Cons x xs)
  from Cons.prems have nd: "\<not> is_duplicate acc x"
    by (auto simp: is_duplicate_iff)
  from Cons.prems have "distinct (map dedup_key ((acc @ [x]) @ xs))" by simp
  from Cons.IH[OF this] nd show ?case by (simp add: add_unique_def)
qed

text \<open>Records are only ever appended: what is kept stays, in its place.\<close>

lemma add_unique_extends: "\<exists>more. add_unique acc p = acc @ more"
  by (simp add: add_unique_def)

lemma foldl_add_unique_extends: "\<exists>more. foldl add_unique acc xs = acc @ more"
proof (induction xs arbitrary: acc)
  case Nil
  then show ?case by simp
next
  case (Cons x xs)
  obtain m1 where m1: "add_unique acc x = acc @ m1"
    using add_unique_extends by blast
  obtain m2 where "foldl add_unique (add_unique acc x) xs = add_unique acc x @ m2"
    using Cons.IH by blast
  with m1 have "foldl add_unique acc (x # xs) = acc @ (m1 @ m2)" by simp
  then show ?case by blast
qed

lemma set_add_unique: "set (add_unique acc p) \<subseteq> insert p (set acc)"
  by (auto simp: add_unique_def)

lemma set_foldl_add_unique: "set (foldl add_unique acc xs) \<subseteq> set acc \<union> set xs"
proof (induction xs arbitrary: acc)
  case Nil
  then show ?case by simp
next
  case (Cons x xs)
  have "set (foldl add_unique (add_unique acc x) xs) \<subseteq> set (add_unique acc x) \<union> set xs"
    by (rule Cons.IH)
  with set_add_unique[of acc x] show ?case by auto
qed

text \<open>The loop over a channel's entries is this reduction on the parsed entries.\<close>

lemma process_guide_is_foldl:
  "process_guide g pds ps = Inr ps' \<Longrightarrow>
   \<exists>parsed. map (\<lambda>pd. parse_program_data pd g) pds = map Inr parsed \<and>
            ps' = foldl add_unique ps parsed"
proof (induction pds arbitrary: ps)
  case Nil
  then show ?case by simp
next
  case (Cons pd pds)
  from Cons.prems obtain p where p: "parse_program_data pd g = Inr p"
    and r: "process_guide g pds (add_unique ps p) = Inr ps'"
    by (auto split: sum.splits)
  from Cons.IH[OF r] obtain parsed where
    "map (\<lambda>pd. parse_program_data pd g) pds = map Inr parsed"
    "ps' = foldl add_unique (add_unique ps p) parsed" by blast
  with p have "map (\<lambda>pd. parse_program_data pd g) (pd # pds) = map Inr (p # parsed) \<and>
    ps' = foldl add_unique ps (p # parsed)" by simp
  then show ?case by blast
qed

lemma dedup_idem: "dedup (dedup S) = dedup S"
proof -
  have "distinct (map dedup_key (dedup S))"
    unfolding dedup_def by (rule distinct_foldl_add_unique) simp
  then have "foldl add_unique [] (dedup S) = [] @ dedup S"
    by (intro foldl_add_unique_distinct) simp
  then show ?thesis by (simp add: dedup_def)
qed

lemma dedup_keys: "dedup_key ` set (dedup S) = dedup_key ` set S"
  by (simp add: dedup_def keys_foldl_add_unique)

lemma dedup_length: "length (dedup S) = card (dedup_key ` set S)"
proof -
  have d: "distinct (map dedup_key (dedup S))"
    unfolding dedup_def by (rule distinct_foldl_add_unique) simp
  have "card (dedup_key ` set S) = card (set (map dedup_key (dedup S)))"
    by (simp add: dedup_keys)
  also have "\<dots> = length (map dedup_key (dedup S))"
    using d by (rule distinct_card)
  finally show ?thesis by simp
qed

lemma dedup_set_inj:
  assumes "inj_on dedup_key (set S)"
  shows "set (dedup S) = set S"
proof
  show "set (dedup S) \<subseteq> set S"
    using set_foldl_add_unique[of "[]" S] by (simp add: dedup_def)
next
  show "set S \<subseteq> set (dedup S)"
  proof
    fix p assume p: "p \<in> set S"
    then have "dedup_key p \<in> dedup_key ` set (dedup S)" by (simp add: dedup_keys)
    then obtain q where q: "q \<in> set (dedup S)" "dedup_key q = dedup_key p" by auto
    from q(1) have "q \<in> set S"
      using set_foldl_add_unique[of "[]" S] by (auto simp: dedup_def)
    with assms p q(2) have "q = p" by (auto dest: inj_onD)
    with q(1) show "p \<in> set (dedup S)" by simp
  qed
qed

text \<open>The reduction keeps, of the records that share a key, the one seen first.\<close>

lemma foldl_add_unique_keep_first:
  "foldl add_unique acc xs =
     acc @ keep_first_seen (filter (\<lambda>q. dedup_key q \<notin> dedup_key ` set acc) xs)"
proof (induction xs arbitrary: acc)
  case Nil
  then show ?case by simp
next
  case (Cons x xs)
  show ?case
  proof (cases "is_duplicate acc x")
    case True
    then have "add_unique acc x = acc" and "dedup_key x \<in> dedup_key ` set acc"
      by (simp_all add: add_unique_def is_duplicate_iff)
    then show ?thesis
      by (simp add: Cons.IH)
  next
    case False
    then have nk: "dedup_key x \<notin> dedup_key ` set acc"
      by (simp add: is_duplicate_iff)
    have f: "filter (\<lambda>q. dedup_key q \<notin> dedup_key ` set (acc @ [x])) xs =
             filter (\<lambda>q. dedup_key q \<noteq> dedup_key x)
               (filter (\<lambda>q. dedup_key q \<notin> dedup_key ` set acc) xs)"
      unfolding filter_filter by (rule filter_cong) auto
    have "foldl add_unique acc (x # xs) = foldl add_unique (acc @ [x]) xs"
      using False by (simp add: add_unique_def)
    also have "\<dots> = (acc @ [x]) @
        keep_first_seen (filter (\<lambda>q. dedup_key q \<notin> dedup_key ` set (acc @ [x])) xs)"
      by (rule Cons.IH)
    also have "\<dots> = acc @
        keep_first_seen (filter (\<lambda>q. dedup_key q \<notin> dedup_key ` set acc) (x # xs))"
      using nk by (simp only: f) simp
    finally show ?thesis .
  qed
qed

lemma find_app:
  "find P (xs @ ys) = (case find P xs of None \<Rightarrow> find P ys | Some x \<Rightarrow> Some x)"
  by (induction xs) simp_all

lemma find_foldl_add_unique:
  "find (\<lambda>p. dedup_key p = k) (foldl add_unique acc xs) = find (\<lambda>p. dedup_key p = k) (acc @ xs)"
proof (induction xs arbitrary: acc)
  case Nil
  then show ?case by simp
next
  case (Cons x xs)
  show ?case
  proof (cases "is_duplicate acc x")
    case False
    then have "add_unique acc x = acc @ [x]"
      by (simp add: add_unique_def)
    then show ?thesis
      using Cons.IH[of "acc @ [x]"] by simp
  next
    case True
    then have au: "add_unique acc x = acc"
      by (simp add: add_unique_def)
    from True have d: "dedup_key x \<in> dedup_key ` set acc"
      by (simp add: is_duplicate_iff)
    have "find (\<lambda>p. dedup_key p = k) (acc @ x # xs) = find (\<lambda>p. dedup_key p = k) (acc @ xs)"
    proof (cases "dedup_key x = k")
      case False
      then show ?thesis by (simp add: find_app split: option.splits)
    next
      case kx: True
      with d obtain q where "q \<in> set acc" "dedup_key q = k" by auto
      then have "find (\<lambda>p. dedup_key p = k) acc \<noteq> None"
        by (auto simp: find_None_iff)
      then show ?thesis by (auto simp: find_app split: option.splits)
    qed
    with au show ?thesis
      using Cons.IH[of acc] by simp
  qed
qed

text \<open>
  C5, as the code has it. Deduplication is idempotent. It keeps, of the records that
  share a key, the one met first, and leaves the kept records in the order in which they
  were met: the result is what the specification's reduction gives when the first record
  of every key is the one to keep, and for every key the record the result holds is the
  first record of the input with that key. So the result depends on the order of the
  input. What a reordering of the input leaves unchanged is the set of keys of the
  result and the number of records kept, and the set of records kept when no two
  different input records share a key.
\<close>

theorem dedup_idempotent_keys_stable:
  "dedup (dedup S) = dedup S \<and>
   dedup S = keep_first_seen S \<and>
   find (\<lambda>p. dedup_key p = k) (dedup S) = find (\<lambda>p. dedup_key p = k) S \<and>
   (mset S = mset T \<longrightarrow>
      dedup_key ` set (dedup S) = dedup_key ` set (dedup T) \<and>
      length (dedup S) = length (dedup T) \<and>
      (inj_on dedup_key (set S) \<longrightarrow> set (dedup S) = set (dedup T)))"
proof (intro conjI impI)
  show "dedup (dedup S) = dedup S" by (rule dedup_idem)
next
  show "dedup S = keep_first_seen S"
    using foldl_add_unique_keep_first[of "[]" S] by (simp add: dedup_def)
next
  show "find (\<lambda>p. dedup_key p = k) (dedup S) = find (\<lambda>p. dedup_key p = k) S"
    using find_foldl_add_unique[of k "[]" S] by (simp add: dedup_def)
next
  assume "mset S = mset T"
  then have st: "set S = set T" by (rule mset_eq_setD)
  show "dedup_key ` set (dedup S) = dedup_key ` set (dedup T)"
    by (simp add: dedup_keys st)
  show "length (dedup S) = length (dedup T)"
    by (simp add: dedup_length st)
  assume inj: "inj_on dedup_key (set S)"
  then have "inj_on dedup_key (set T)" by (simp add: st)
  with inj show "set (dedup S) = set (dedup T)"
    by (simp add: dedup_set_inj st)
qed

theorem dedup_idempotent_keys_stable_witness:
  "mset [rec_a, rec_b, rec_a] = mset [rec_b, rec_a, rec_a] \<and>
   inj_on dedup_key (set [rec_a, rec_b, rec_a]) \<and>
   dedup (dedup [rec_a, rec_b, rec_a]) = dedup [rec_a, rec_b, rec_a] \<and>
   dedup [rec_a, rec_b, rec_a] = [rec_a, rec_b] \<and>
   find (\<lambda>p. dedup_key p = dedup_key rec_a) (dedup [rec_a, rec_b, rec_a]) = Some rec_a \<and>
   dedup_key ` set (dedup [rec_a, rec_b, rec_a]) = dedup_key ` set (dedup [rec_b, rec_a, rec_a]) \<and>
   length (dedup [rec_a, rec_b, rec_a]) = length (dedup [rec_b, rec_a, rec_a]) \<and>
   set (dedup [rec_a, rec_b, rec_a]) = set (dedup [rec_b, rec_a, rec_a])"
proof -
  have m: "mset [rec_a, rec_b, rec_a] = mset [rec_b, rec_a, rec_a]" by simp
  have i: "inj_on dedup_key (set [rec_a, rec_b, rec_a])"
    by (auto simp: inj_on_def dedup_key_def rec_a_def rec_b_def)
  have k: "dedup_key rec_b \<noteq> dedup_key rec_a"
    by (simp add: dedup_key_def rec_a_def rec_b_def)
  have e: "keep_first_seen [rec_a, rec_b, rec_a] = [rec_a, rec_b]"
    using k by simp
  have f: "find (\<lambda>p. dedup_key p = dedup_key rec_a) [rec_a, rec_b, rec_a] = Some rec_a"
    by simp
  from dedup_idempotent_keys_stable
    [of "[rec_a, rec_b, rec_a]" "dedup_key rec_a" "[rec_b, rec_a, rec_a]"] m i e f
  show ?thesis by metis
qed

text \<open>
  C5 as stated fails: two records with the same key and different synopses, fed in the
  two possible orders, leave different results.
\<close>

theorem dedup_reordering_counterexample:
  "mset [rec_a, rec_a\<lparr>synopsis := JStr ''second''\<rparr>] =
     mset [rec_a\<lparr>synopsis := JStr ''second''\<rparr>, rec_a] \<and>
   dedup [rec_a, rec_a\<lparr>synopsis := JStr ''second''\<rparr>] = [rec_a] \<and>
   dedup [rec_a\<lparr>synopsis := JStr ''second''\<rparr>, rec_a] = [rec_a\<lparr>synopsis := JStr ''second''\<rparr>] \<and>
   rec_a\<lparr>synopsis := JStr ''second''\<rparr> \<noteq> rec_a"
  by (simp add: dedup_def add_unique_def is_duplicate_def py_eq_def rec_a_def)

section \<open>Properties of the fetch\<close>

lemma length_api_endpoints: "length api_endpoints = 2"
  by (simp add: api_endpoints_def)

lemma length_user_agents: "length user_agents = 4"
  by (simp add: user_agents_def)

lemma upt_2: "[0..<2] = [0, Suc 0]"
  by (simp add: upt_rec)

subsection \<open>The 403 fallback\<close>

text \<open>
  Within a window the counter of consecutive 403 answers starts at zero and is raised at
  most once per endpoint, so it never reaches the number of endpoint and user agent
  combinations.
\<close>

lemma try_endpoints_window:
  assumes "consecutive_403_errors st = 0"
  shows "try_endpoints service channels t [0..<length api_endpoints] st
           \<noteq> Inl Forbidden_All_Endpoints_And_User_Agents \<and>
         (\<forall>st'. try_endpoints service channels t [0..<length api_endpoints] st = Inr (True, st')
                \<longrightarrow> consecutive_403_errors st' = 0)"
  using assms
  by (auto simp: length_api_endpoints length_user_agents upt_2 Let_def
      split: response.splits sum.splits)

lemma fetch_windows_never_forbidden:
  assumes "fetch_windows service channels inc e t st = Some r"
    and "consecutive_403_errors st = 0"
  shows "r \<noteq> Inl Forbidden_All_Endpoints_And_User_Agents"
proof -
  have "consecutive_403_errors st = 0 \<longrightarrow> r \<noteq> Inl Forbidden_All_Endpoints_And_User_Agents"
  proof (rule fetch_windows.raw_induct
      [where P = "\<lambda>service channels inc e t st r.
         consecutive_403_errors st = 0 \<longrightarrow> r \<noteq> Inl Forbidden_All_Endpoints_And_User_Agents",
       OF _ assms(1)])
    fix fw :: "guide_service \<Rightarrow> ChannelInfo list \<Rightarrow> int \<Rightarrow> int \<Rightarrow> int \<Rightarrow> fetch_state \<Rightarrow>
               (api_error + ProgramInfo list) option"
    fix service channels inc e t st r
    assume IH: "\<And>sv ch i en cu s y. fw sv ch i en cu s = Some y \<Longrightarrow>
                 consecutive_403_errors s = 0 \<longrightarrow> y \<noteq> Inl Forbidden_All_Endpoints_And_User_Agents"
    assume eq: "(if t < e then
        (case try_endpoints service channels t [0..<length api_endpoints] st of
           Inl e \<Rightarrow> Some (Inl e)
         | Inr r \<Rightarrow>
             if \<not> fst r then Some (Inl Failed_From_Any_Endpoint)
             else fw service channels inc e (t + inc * 3600) (snd r))
      else Some (Inr (programs st))) = Some r"
    show "consecutive_403_errors st = 0 \<longrightarrow> r \<noteq> Inl Forbidden_All_Endpoints_And_User_Agents"
    proof
      assume c: "consecutive_403_errors st = 0"
      note w = try_endpoints_window[OF c, of service channels t]
      show "r \<noteq> Inl Forbidden_All_Endpoints_And_User_Agents"
      proof (cases "t < e")
        case False
        with eq show ?thesis by auto
      next
        case True
        show ?thesis
        proof (cases "try_endpoints service channels t [0..<length api_endpoints] st")
          case (Inl err)
          with True eq w show ?thesis by auto
        next
          case (Inr p)
          show ?thesis
          proof (cases "fst p")
            case False
            with True Inr eq show ?thesis by auto
          next
            case fp: True
            with Inr have "try_endpoints service channels t [0..<length api_endpoints] st
                = Inr (True, snd p)"
              by (cases p) simp
            with w have c0: "consecutive_403_errors (snd p) = 0" by blast
            from True fp Inr eq
            have "fw service channels inc e (t + inc * 3600) (snd p) = Some r" by simp
            from IH[OF this] c0 show ?thesis by blast
          qed
        qed
      qed
    qed
  qed
  with assms(2) show ?thesis by blast
qed

text \<open>
  C1. When both endpoints answer 403 to the first window's request under the first user
  agent, \<^verbatim>\<open>get_epg_data\<close> raises at once with the message of the exhausted endpoint
  loop: the window is not retried, so no request is made under another user agent,
  whatever the service would answer to it. The failure raised for a rejection by all
  endpoints and user agents is never the outcome of a fetch.
\<close>

theorem forbidden_window_aborts_after_first_user_agent:
  "(0 < days \<and> service now 0 0 = Resp_HTTPError 403 \<and> service now 1 0 = Resp_HTTPError 403 \<longrightarrow>
      get_epg_data service channels now days hours_increment =
        Some (Inl Failed_From_Any_Endpoint)) \<and>
   get_epg_data service channels now days hours_increment \<noteq>
     Some (Inl Forbidden_All_Endpoints_And_User_Agents)"
proof (intro conjI impI)
  assume a: "0 < days \<and> service now 0 0 = Resp_HTTPError 403 \<and>
    service now 1 0 = Resp_HTTPError 403"
  then have lt: "now < now + days * 86400" by simp
  show "get_epg_data service channels now days hours_increment =
          Some (Inl Failed_From_Any_Endpoint)"
    unfolding get_epg_data_def
    apply (subst fetch_windows.simps)
    using lt a by (simp add: length_api_endpoints length_user_agents upt_2)
next
  show "get_epg_data service channels now days hours_increment \<noteq>
     Some (Inl Forbidden_All_Endpoints_And_User_Agents)"
    using fetch_windows_never_forbidden[of service channels hours_increment
        "now + days * 86400" now
        "\<lparr>programs = [], current_ua_index = 0, consecutive_403_errors = 0\<rparr>"]
    unfolding get_epg_data_def by auto
qed

theorem forbidden_window_aborts_after_first_user_agent_witness:
  "get_epg_data (\<lambda>t e u. Resp_HTTPError 403) [example_channel] 0 7 3 =
     Some (Inl Failed_From_Any_Endpoint) \<and>
   get_epg_data (\<lambda>t e u. if u = 0 then Resp_HTTPError 403 else Resp_OK (JArr []))
     [example_channel] 0 7 3 = Some (Inl Failed_From_Any_Endpoint)"
  using forbidden_window_aborts_after_first_user_agent
    [of 7 "\<lambda>t e u. Resp_HTTPError 403" 0 "[example_channel]" 3]
    forbidden_window_aborts_after_first_user_agent
    [of 7 "\<lambda>t e u. if u = 0 then Resp_HTTPError 403 else Resp_OK (JArr [])" 0
        "[example_channel]" 3]
  by simp

subsection \<open>One window\<close>

text \<open>
  A window that is answered with a document goes on with the records of the document
  processed, or ends the fetch when the processing raises.
\<close>

lemma try_endpoints_answered:
  assumes "answered service t (current_ua_index st) epg_data"
  shows "try_endpoints service channels t [0..<length api_endpoints] st =
     (case process_response channels epg_data (programs st) of
        Inl exc \<Rightarrow> Inl (Unexpected_Error exc)
      | Inr ps \<Rightarrow> Inr (True, st\<lparr>programs := ps, consecutive_403_errors := 0\<rparr>))"
  using assms
  by (auto simp: answered_def length_api_endpoints length_user_agents upt_2 Let_def
      split: sum.splits)

lemma window_step:
  assumes "t < e'" and "answered service t (current_ua_index st) epg_data"
  shows "fetch_windows service channels inc e' t st =
     (case process_response channels epg_data (programs st) of
        Inl exc \<Rightarrow> Some (Inl (Unexpected_Error exc))
      | Inr ps \<Rightarrow>
          fetch_windows service channels inc e' (t + inc * 3600)
            (st\<lparr>programs := ps, consecutive_403_errors := 0\<rparr>))"
  by (subst fetch_windows.simps)
     (simp add: assms try_endpoints_answered[OF assms(2)] split: sum.splits)

text \<open>A window that succeeds leaves the user agent as it was and only appends records.\<close>

lemma process_guide_extends:
  assumes "process_guide g pds ps = Inr ps'"
  shows "\<exists>more. ps' = ps @ more"
proof -
  from process_guide_is_foldl[OF assms] obtain parsed where
    "ps' = foldl add_unique ps parsed" by blast
  with foldl_add_unique_extends[of ps parsed] show ?thesis by simp
qed

lemma process_channels_extends:
  "process_channels channels groups ps = Inr ps' \<Longrightarrow> \<exists>more. ps' = ps @ more"
proof (induction groups arbitrary: ps)
  case Nil
  then show ?case by simp
next
  case (Cons c cs)
  from Cons.prems obtain ps1 where
    s1: "ps1 = ps \<or> (\<exists>g entries. process_guide g entries ps = Inr ps1)"
    and r: "process_channels channels cs ps1 = Inr ps'"
    by (auto split: sum.splits if_splits)
  from s1 obtain m1 where m1: "ps1 = ps @ m1"
    using process_guide_extends by fastforce
  from Cons.IH[OF r] obtain m2 where "ps' = ps1 @ m2" by blast
  with m1 have "ps' = ps @ (m1 @ m2)" by simp
  then show ?case by blast
qed

lemma process_response_extends:
  "process_response channels epg_data ps = Inr ps' \<Longrightarrow> \<exists>more. ps' = ps @ more"
  by (auto simp: process_response_def dest: process_channels_extends split: sum.splits)

lemma try_endpoints_success:
  assumes "try_endpoints service channels t [0..<length api_endpoints] st = Inr (True, st')"
  shows "current_ua_index st' = current_ua_index st \<and>
         (\<exists>more. programs st' = programs st @ more)"
  using assms
  by (auto simp: length_api_endpoints length_user_agents upt_2 Let_def
      dest: process_response_extends split: response.splits sum.splits if_splits)

lemma fetch_windows_extends:
  assumes "fetch_windows service channels inc e t st = Some (Inr out)"
  shows "\<exists>more. out = programs st @ more"
proof -
  have "\<forall>res. Inr out = (Inr res :: api_error + ProgramInfo list) \<longrightarrow>
          (\<exists>more. res = programs st @ more)"
  proof (rule fetch_windows.raw_induct
      [where P = "\<lambda>service channels inc e t st r.
         \<forall>res. r = Inr res \<longrightarrow> (\<exists>more. res = programs st @ more)",
       OF _ assms])
    fix fw :: "guide_service \<Rightarrow> ChannelInfo list \<Rightarrow> int \<Rightarrow> int \<Rightarrow> int \<Rightarrow> fetch_state \<Rightarrow>
               (api_error + ProgramInfo list) option"
    fix service channels inc e t st r
    assume IH: "\<And>sv ch i en cu s y. fw sv ch i en cu s = Some y \<Longrightarrow>
                 \<forall>res. y = Inr res \<longrightarrow> (\<exists>more. res = programs s @ more)"
    assume eq: "(if t < e then
        (case try_endpoints service channels t [0..<length api_endpoints] st of
           Inl e \<Rightarrow> Some (Inl e)
         | Inr r \<Rightarrow>
             if \<not> fst r then Some (Inl Failed_From_Any_Endpoint)
             else fw service channels inc e (t + inc * 3600) (snd r))
      else Some (Inr (programs st))) = Some r"
    show "\<forall>res. r = Inr res \<longrightarrow> (\<exists>more. res = programs st @ more)"
    proof (intro allI impI)
      fix res assume r: "r = Inr res"
      show "\<exists>more. res = programs st @ more"
      proof (cases "t < e")
        case False
        with eq r show ?thesis by auto
      next
        case True
        show ?thesis
        proof (cases "try_endpoints service channels t [0..<length api_endpoints] st")
          case (Inl err)
          with True eq r show ?thesis by auto
        next
          case (Inr p)
          show ?thesis
          proof (cases "fst p")
            case False
            with True Inr eq r show ?thesis by auto
          next
            case fp: True
            with Inr have te: "try_endpoints service channels t [0..<length api_endpoints] st
                = Inr (True, snd p)"
              by (cases p) simp
            from try_endpoints_success[OF te] obtain m1 where
              m1: "programs (snd p) = programs st @ m1" by blast
            from True fp Inr eq
            have "fw service channels inc e (t + inc * 3600) (snd p) = Some r" by simp
            from IH[OF this] r obtain m2 where "res = programs (snd p) @ m2" by blast
            with m1 have "res = programs st @ (m1 @ m2)" by simp
            then show ?thesis by blast
          qed
        qed
      qed
    qed
  qed
  then show ?thesis by blast
qed

text \<open>
  A failure in some window, whatever the state in which the fetch reaches it, is a failure
  of the whole fetch: a window is reached only after every window before it succeeded,
  and a window that succeeds leaves the user agent as it was.
\<close>

lemma fetch_aborts_at_window:
  assumes "0 < inc"
    and "t + int k * (inc * 3600) < e'"
    and "\<And>st'. current_ua_index st' = current_ua_index st \<Longrightarrow>
           \<exists>err. fetch_windows service channels inc e' (t + int k * (inc * 3600)) st'
                   = Some (Inl err)"
  shows "\<exists>err. fetch_windows service channels inc e' t st = Some (Inl err)"
  using assms(2,3)
proof (induction k arbitrary: t st)
  case 0
  from "0.prems"(2)[of st] show ?case by simp
next
  case (Suc k)
  have nn: "0 \<le> int (Suc k) * (inc * 3600)"
    using assms(1) by simp
  with Suc.prems(1) have lt: "t < e'" by linarith
  have shift: "t + inc * 3600 + int k * (inc * 3600) = t + int (Suc k) * (inc * 3600)"
    by (simp add: algebra_simps)
  show ?case
  proof (cases "try_endpoints service channels t [0..<length api_endpoints] st")
    case (Inl err)
    with lt show ?thesis
      by (subst fetch_windows.simps) simp
  next
    case (Inr p)
    show ?thesis
    proof (cases "fst p")
      case False
      with lt Inr show ?thesis
        by (subst fetch_windows.simps) simp
    next
      case True
      with Inr have te: "try_endpoints service channels t [0..<length api_endpoints] st
          = Inr (True, snd p)"
        by (cases p) simp
      from try_endpoints_success[OF te]
      have ua: "current_ua_index (snd p) = current_ua_index st" by blast
      have "\<exists>err. fetch_windows service channels inc e' (t + inc * 3600) (snd p) = Some (Inl err)"
      proof (rule Suc.IH)
        show "t + inc * 3600 + int k * (inc * 3600) < e'"
          using Suc.prems(1) by (simp only: shift)
      next
        fix st' :: fetch_state
        assume "current_ua_index st' = current_ua_index (snd p)"
        with ua have "current_ua_index st' = current_ua_index st" by simp
        from Suc.prems(2)[OF this]
        show "\<exists>err. fetch_windows service channels inc e'
                 (t + inc * 3600 + int k * (inc * 3600)) st' = Some (Inl err)"
          by (simp only: shift)
      qed
      with lt Inr True show ?thesis
        by (subst fetch_windows.simps) simp
    qed
  qed
qed

subsection \<open>Entries of a response\<close>

lemma process_guide_fails:
  "pd \<in> set pds \<Longrightarrow> parse_program_data pd g = Inl e \<Longrightarrow>
   \<exists>e'. process_guide g pds ps = Inl e'"
  by (induction pds arbitrary: ps) (auto split: sum.splits)

lemma process_guide_keeps:
  assumes "process_guide g pds ps = Inr ps'"
    and "pd \<in> set pds" and "parse_program_data pd g = Inr p"
  shows "dedup_key p \<in> dedup_key ` set ps'"
proof -
  from process_guide_is_foldl[OF assms(1)] obtain parsed where
    m: "map (\<lambda>pd. parse_program_data pd g) pds = map Inr parsed"
    and f: "ps' = foldl add_unique ps parsed" by blast
  from assms(2,3) have "Inr p \<in> set (map (\<lambda>pd. parse_program_data pd g) pds)"
    by force
  with m have "p \<in> set parsed" by auto
  with f show ?thesis by (simp add: keys_foldl_add_unique)
qed

text \<open>What the loop over the channel objects does with an object of a lineup channel.\<close>

lemma process_channels_lineup_group:
  assumes "list_ex (\<lambda>ch. py_eq (ch_guide_number ch) (get_or ckvs ''GuideNumber'' (JStr ''''))) channels"
    and "py_iter (get_or ckvs ''Guide'' (JArr [])) = Inr entries"
  shows "process_channels channels (JObj ckvs # cs) ps =
     (case process_guide (get_or ckvs ''GuideNumber'' (JStr '''')) entries ps of
        Inl e \<Rightarrow> Inl e
      | Inr ps1 \<Rightarrow> process_channels channels cs ps1)"
  using assms by (simp add: get_or_def)

lemma process_channels_fails:
  assumes "lineup_entry channels groups g pd" and "parse_program_data pd g = Inl e"
  shows "\<exists>e'. process_channels channels groups ps = Inl e'"
  using assms(1)
proof (induction groups arbitrary: ps)
  case Nil
  then show ?case by (simp add: lineup_entry_def)
next
  case (Cons c cs)
  show ?case
  proof (cases "lineup_entry channels [c] g pd")
    case True
    then obtain ckvs entries where c: "c = JObj ckvs"
      and g: "g = get_or ckvs ''GuideNumber'' (JStr '''')"
      and l: "list_ex (\<lambda>ch. py_eq (ch_guide_number ch) g) channels"
      and i: "py_iter (get_or ckvs ''Guide'' (JArr [])) = Inr entries"
      and m: "pd \<in> set entries"
      by (auto simp: lineup_entry_def split: json.splits sum.splits)
    from process_guide_fails[OF m assms(2)] obtain e' where
      "process_guide g entries ps = Inl e'" by blast
    with process_channels_lineup_group[OF l[unfolded g] i, of cs ps] c g
    show ?thesis by simp
  next
    case False
    with Cons.prems have "lineup_entry channels cs g pd"
      by (simp add: lineup_entry_def)
    from Cons.IH[OF this] show ?thesis
      by (auto split: sum.splits)
  qed
qed

lemma process_channels_keeps:
  assumes "lineup_entry channels groups g pd" and "parse_program_data pd g = Inr p"
  shows "process_channels channels groups ps = Inr ps' \<Longrightarrow>
         dedup_key p \<in> dedup_key ` set ps'"
  using assms(1)
proof (induction groups arbitrary: ps)
  case Nil
  then show ?case by (simp add: lineup_entry_def)
next
  case (Cons c cs)
  show ?case
  proof (cases "lineup_entry channels [c] g pd")
    case True
    then obtain ckvs entries where c: "c = JObj ckvs"
      and g: "g = get_or ckvs ''GuideNumber'' (JStr '''')"
      and l: "list_ex (\<lambda>ch. py_eq (ch_guide_number ch) g) channels"
      and i: "py_iter (get_or ckvs ''Guide'' (JArr [])) = Inr entries"
      and m: "pd \<in> set entries"
      by (auto simp: lineup_entry_def split: json.splits sum.splits)
    from Cons.prems(1) process_channels_lineup_group[OF l[unfolded g] i, of cs ps] c g
    obtain ps1 where p1: "process_guide g entries ps = Inr ps1"
      and r: "process_channels channels cs ps1 = Inr ps'"
      by (auto split: sum.splits)
    from process_guide_keeps[OF p1 m assms(2)]
    have "dedup_key p \<in> dedup_key ` set ps1" .
    moreover from process_channels_extends[OF r] obtain more where "ps' = ps1 @ more"
      by blast
    ultimately show ?thesis by auto
  next
    case False
    with Cons.prems(2) have le: "lineup_entry channels cs g pd"
      by (simp add: lineup_entry_def)
    from Cons.prems(1) obtain ps1 where "process_channels channels cs ps1 = Inr ps'"
      by (auto split: sum.splits if_splits)
    from Cons.IH[OF this le] show ?thesis .
  qed
qed

text \<open>
  The record of an entry of a window's response is in what the fetch returns, or a record
  with its key is: once a key is kept it stays.
\<close>

lemma fetch_keeps_at_window:
  assumes "0 < inc"
    and "lineup_entry channels groups g pd" and "parse_program_data pd g = Inr p"
  shows "t + int k * (inc * 3600) < e' \<Longrightarrow>
         answered service (t + int k * (inc * 3600)) (current_ua_index st) (JArr groups) \<Longrightarrow>
         fetch_windows service channels inc e' t st = Some (Inr out) \<Longrightarrow>
         dedup_key p \<in> dedup_key ` set out"
proof (induction k arbitrary: t st)
  case 0
  then have lt: "t < e'" and a: "answered service t (current_ua_index st) (JArr groups)"
    by simp_all
  from window_step[OF lt a, of channels inc] "0.prems"(3)
  obtain ps where pr: "process_response channels (JArr groups) (programs st) = Inr ps"
    and fw: "fetch_windows service channels inc e' (t + inc * 3600)
               (st\<lparr>programs := ps, consecutive_403_errors := 0\<rparr>) = Some (Inr out)"
    by (auto split: sum.splits)
  from pr have "process_channels channels groups (programs st) = Inr ps"
    by (simp add: process_response_def)
  from process_channels_keeps[OF assms(2,3) this]
  have "dedup_key p \<in> dedup_key ` set ps" .
  moreover from fetch_windows_extends[OF fw] obtain more where "out = ps @ more"
    by auto
  ultimately show ?case by auto
next
  case (Suc k)
  have nn: "0 \<le> int (Suc k) * (inc * 3600)"
    using assms(1) by simp
  with Suc.prems(1) have lt: "t < e'" by linarith
  have shift: "t + inc * 3600 + int k * (inc * 3600) = t + int (Suc k) * (inc * 3600)"
    by (simp add: algebra_simps)
  from Suc.prems(3) lt obtain st' where
    te: "try_endpoints service channels t [0..<length api_endpoints] st = Inr (True, st')"
    and fw: "fetch_windows service channels inc e' (t + inc * 3600) st' = Some (Inr out)"
    by (subst (asm) fetch_windows.simps) (auto split: sum.splits if_splits)
  from try_endpoints_success[OF te]
  have ua: "current_ua_index st' = current_ua_index st" by blast
  show ?case
  proof (rule Suc.IH[OF _ _ fw])
    show "t + inc * 3600 + int k * (inc * 3600) < e'"
      using Suc.prems(1) by (simp only: shift)
    show "answered service (t + inc * 3600 + int k * (inc * 3600)) (current_ua_index st')
            (JArr groups)"
      using Suc.prems(2) by (simp only: shift ua)
  qed
qed

subsection \<open>Start and end times\<close>

lemma parse_numeric_entry:
  assumes "map_of kvs ''StartTime'' = Some (JNum s)" and "representable s"
    and "map_of kvs ''EndTime'' = Some (JNum e)" and "representable e"
    and "map_of kvs ''OriginalAirdate'' = None \<or>
         map_of kvs ''OriginalAirdate'' = Some (JNum a) \<and> representable a"
  shows "parse_program_data (JObj kvs) g =
     Inr \<lparr>title = get_or kvs ''Title'' (JStr ''''), start_time = s, end_time = e,
          guide_number = g,
          synopsis = get_or kvs ''Synopsis'' JNull,
          episode_title = get_or kvs ''EpisodeTitle'' JNull,
          episode_number = get_or kvs ''EpisodeNumber'' JNull,
          image_url = get_or kvs ''ImageURL'' JNull,
          original_airdate =
            (case map_of kvs ''OriginalAirdate'' of None \<Rightarrow> None | Some v \<Rightarrow> Some a),
          filters = get_or kvs ''Filter'' (JArr []),
          first = get_or kvs ''First'' JNull\<rparr>"
  using assms by (auto simp: parse_program_data_def)

text \<open>
  C4, as the code has it. Parsing never compares the two times. An entry whose
  \<^verbatim>\<open>StartTime\<close> and \<^verbatim>\<open>EndTime\<close> are integers a \<^verbatim>\<open>datetime\<close> can hold (and whose
  \<^verbatim>\<open>OriginalAirdate\<close>, if there is one, is too) parses into a record with exactly these
  two instants, in whatever order they are. The loop over the channel's entries appends
  the record unless a record with its key is already there. And the fetch keeps it: when
  the entry is in the guide of a lineup channel in the document that answers some window
  and the fetch returns, the returned list holds a record with the entry's start time and
  key.
\<close>

theorem parse_keeps_times_without_comparing:
  assumes "map_of kvs ''StartTime'' = Some (JNum s)" and "representable s"
    and "map_of kvs ''EndTime'' = Some (JNum e)" and "representable e"
    and "map_of kvs ''OriginalAirdate'' = None \<or>
         map_of kvs ''OriginalAirdate'' = Some (JNum a) \<and> representable a"
  shows "\<exists>p. parse_program_data (JObj kvs) g = Inr p \<and> start_time p = s \<and> end_time p = e \<and>
           process_guide g (JObj kvs # rest) ps = process_guide g rest (add_unique ps p) \<and>
           (\<not> is_duplicate ps p \<longrightarrow> add_unique ps p = ps @ [p]) \<and>
           (0 < hours_increment \<and>
            now + int k * (hours_increment * 3600) < now + days * 86400 \<and>
            answered service (now + int k * (hours_increment * 3600)) 0 (JArr groups) \<and>
            lineup_entry channels groups g (JObj kvs) \<and>
            get_epg_data service channels now days hours_increment = Some (Inr out) \<longrightarrow>
              (\<exists>q \<in> set out. start_time q = s \<and> dedup_key q = dedup_key p))"
proof -
  let ?p = "\<lparr>title = get_or kvs ''Title'' (JStr ''''), start_time = s, end_time = e,
          guide_number = g,
          synopsis = get_or kvs ''Synopsis'' JNull,
          episode_title = get_or kvs ''EpisodeTitle'' JNull,
          episode_number = get_or kvs ''EpisodeNumber'' JNull,
          image_url = get_or kvs ''ImageURL'' JNull,
          original_airdate =
            (case map_of kvs ''OriginalAirdate'' of None \<Rightarrow> None | Some v \<Rightarrow> Some a),
          filters = get_or kvs ''Filter'' (JArr []),
          first = get_or kvs ''First'' JNull\<rparr>"
  have p: "parse_program_data (JObj kvs) g = Inr ?p"
    by (rule parse_numeric_entry[OF assms])
  have t: "start_time ?p = s \<and> end_time ?p = e" by simp
  have l: "process_guide g (JObj kvs # rest) ps = process_guide g rest (add_unique ps ?p)"
    by (simp add: p)
  have u: "\<not> is_duplicate ps ?p \<longrightarrow> add_unique ps ?p = ps @ [?p]"
    by (simp add: add_unique_def)
  have f: "0 < hours_increment \<and>
      now + int k * (hours_increment * 3600) < now + days * 86400 \<and>
      answered service (now + int k * (hours_increment * 3600)) 0 (JArr groups) \<and>
      lineup_entry channels groups g (JObj kvs) \<and>
      get_epg_data service channels now days hours_increment = Some (Inr out) \<longrightarrow>
        (\<exists>q \<in> set out. start_time q = s \<and> dedup_key q = dedup_key ?p)"
  proof
    assume h: "0 < hours_increment \<and>
      now + int k * (hours_increment * 3600) < now + days * 86400 \<and>
      answered service (now + int k * (hours_increment * 3600)) 0 (JArr groups) \<and>
      lineup_entry channels groups g (JObj kvs) \<and>
      get_epg_data service channels now days hours_increment = Some (Inr out)"
    then have "dedup_key ?p \<in> dedup_key ` set out"
      unfolding get_epg_data_def
      by (intro fetch_keeps_at_window
            [where st = "\<lparr>programs = [], current_ua_index = 0, consecutive_403_errors = 0\<rparr>"
               and pd = "JObj kvs" and g = g and k = k and t = now and groups = groups
               and inc = hours_increment and e' = "now + days * 86400" and service = service
               and channels = channels, OF _ _ p])
         simp_all
    then obtain q where q: "q \<in> set out" "dedup_key q = dedup_key ?p" by auto
    then have "start_time q = s" by (simp add: dedup_key_def)
    with q show "\<exists>q \<in> set out. start_time q = s \<and> dedup_key q = dedup_key ?p" by blast
  qed
  from p t l u f show ?thesis by blast
qed

theorem parse_keeps_times_without_comparing_witness:
  "representable 200 \<and> representable 100 \<and>
   answered (\<lambda>t e u. Resp_OK (guide_of [JObj [(''StartTime'', JNum 200), (''EndTime'', JNum 100)]]))
     (0 + int 0 * (24 * 3600)) 0
     (JArr [JObj [(''GuideNumber'', JStr ''5.1''),
                  (''Guide'', JArr [JObj [(''StartTime'', JNum 200), (''EndTime'', JNum 100)]])]]) \<and>
   lineup_entry [example_channel]
     [JObj [(''GuideNumber'', JStr ''5.1''),
            (''Guide'', JArr [JObj [(''StartTime'', JNum 200), (''EndTime'', JNum 100)]])]]
     (JStr ''5.1'') (JObj [(''StartTime'', JNum 200), (''EndTime'', JNum 100)]) \<and>
   (\<exists>p. parse_program_data (JObj [(''StartTime'', JNum 200), (''EndTime'', JNum 100)])
          (JStr ''5.1'') = Inr p \<and>
        start_time p = 200 \<and> end_time p = 100 \<and>
        process_guide (JStr ''5.1'') [JObj [(''StartTime'', JNum 200), (''EndTime'', JNum 100)]] [] =
          Inr [p] \<and>
        (\<exists>q \<in> set [reversed_record]. start_time q = 200 \<and> dedup_key q = dedup_key p))"
proof -
  let ?entry = "[(''StartTime'', JNum 200), (''EndTime'', JNum 100)]"
  let ?service = "\<lambda>(t::int) (e::nat) (u::nat). Resp_OK (guide_of [JObj ?entry])"
  have r: "representable 200" "representable 100"
    by (simp_all add: representable_def datetime_min_def datetime_max_def)
  have a: "answered ?service (0 + int 0 * (24 * 3600)) 0
     (JArr [JObj [(''GuideNumber'', JStr ''5.1''), (''Guide'', JArr [JObj ?entry])]])"
    by (simp add: answered_def guide_of_def)
  have l: "lineup_entry [example_channel]
     [JObj [(''GuideNumber'', JStr ''5.1''), (''Guide'', JArr [JObj ?entry])]]
     (JStr ''5.1'') (JObj ?entry)"
    by (simp add: lineup_entry_def get_or_def example_channel_def py_eq_def)
  have o: "get_epg_data ?service [example_channel] 0 1 24 = Some (Inr [reversed_record])"
    by (simp add: get_epg_data_def fetch_windows.simps length_api_endpoints upt_2
        process_response_def parse_program_data_def get_or_def add_unique_def is_duplicate_def
        guide_of_def example_channel_def py_eq_def reversed_record_def r)
  from parse_keeps_times_without_comparing
    [where kvs = ?entry and s = 200 and e = 100 and g = "JStr ''5.1''" and rest = "[]"
       and ps = "[]" and hours_increment = 24 and now = 0 and k = 0 and days = 1
       and service = ?service and groups = "[JObj [(''GuideNumber'', JStr ''5.1''),
            (''Guide'', JArr [JObj ?entry])]]"
       and channels = "[example_channel]" and out = "[reversed_record]" and a = 0,
     OF _ r(1) _ r(2)] a l o
  obtain p where "parse_program_data (JObj ?entry) (JStr ''5.1'') = Inr p"
    "start_time p = 200" "end_time p = 100"
    "process_guide (JStr ''5.1'') [JObj ?entry] [] = Inr (add_unique [] p)"
    "\<exists>q \<in> set [reversed_record]. start_time q = 200 \<and> dedup_key q = dedup_key p"
    by (auto simp: is_duplicate_def)
  then show ?thesis
    using r a l by (auto simp: add_unique_def is_duplicate_def)
qed

text \<open>
  C4 as stated fails: a guide entry that starts at 200 and ends at 100, on a channel of
  the lineup, is returned by the fetch.
\<close>

theorem reversed_times_kept_counterexample:
  "get_epg_data
     (\<lambda>t e u. Resp_OK (guide_of [JObj [(''StartTime'', JNum 200), (''EndTime'', JNum 100)]]))
     [example_channel] 0 1 24 =
   Some (Inr [\<lparr>title = JStr '''', start_time = 200, end_time = 100, guide_number = JStr ''5.1'',
     synopsis = JNull, episode_title = JNull, episode_number = JNull, image_url = JNull,
     original_airdate = None, filters = JArr [], first = JNull\<rparr>])"
  by (simp add: get_epg_data_def fetch_windows.simps length_api_endpoints upt_2
      process_response_def parse_program_data_def get_or_def add_unique_def is_duplicate_def
      guide_of_def example_channel_def py_eq_def representable_def datetime_min_def
      datetime_max_def)

subsection \<open>Transport errors\<close>

lemma fetch_windows_unfold:
  assumes "t < e'"
  shows "fetch_windows service channels inc e' t st =
     (case try_endpoints service channels t [0, Suc 0] st of
        Inl err \<Rightarrow> Some (Inl err)
      | Inr r \<Rightarrow>
          if \<not> fst r then Some (Inl Failed_From_Any_Endpoint)
          else fetch_windows service channels inc e' (t + inc * 3600) (snd r))"
  using assms by (subst fetch_windows.simps) (simp add: length_api_endpoints upt_2)

lemma window_transport_error:
  assumes "t < e'"
  shows
  "(service t 0 (current_ua_index st) = Resp_HTTPError code \<and> code \<noteq> 403 \<longrightarrow>
      fetch_windows service channels inc e' t st = Some (Inl (HTTP_Error code))) \<and>
   (service t 0 (current_ua_index st) = Resp_JSONDecodeError \<longrightarrow>
      fetch_windows service channels inc e' t st = Some (Inl EPG_Invalid_JSON)) \<and>
   (service t 0 (current_ua_index st) = Resp_OtherError exc \<longrightarrow>
      fetch_windows service channels inc e' t st = Some (Inl (Unexpected_Error exc))) \<and>
   (service t 0 (current_ua_index st) = Resp_URLError \<or>
    service t 0 (current_ua_index st) = Resp_HTTPError 403 \<longrightarrow>
      (service t 1 (current_ua_index st) = Resp_URLError \<longrightarrow>
         fetch_windows service channels inc e' t st = Some (Inl Failed_To_Retrieve)) \<and>
      (service t 1 (current_ua_index st) = Resp_HTTPError code \<and> code \<noteq> 403 \<longrightarrow>
         fetch_windows service channels inc e' t st = Some (Inl (HTTP_Error code))) \<and>
      (service t 1 (current_ua_index st) = Resp_JSONDecodeError \<longrightarrow>
         fetch_windows service channels inc e' t st = Some (Inl EPG_Invalid_JSON)) \<and>
      (service t 1 (current_ua_index st) = Resp_OtherError exc \<longrightarrow>
         fetch_windows service channels inc e' t st = Some (Inl (Unexpected_Error exc))) \<and>
      (service t 1 (current_ua_index st) = Resp_HTTPError 403 \<and>
       consecutive_403_errors st = 0 \<longrightarrow>
         fetch_windows service channels inc e' t st = Some (Inl Failed_From_Any_Endpoint)) \<and>
      (service t 1 (current_ua_index st) = Resp_OK epg_data \<and>
       process_response channels epg_data (programs st) = Inl exc \<longrightarrow>
         fetch_windows service channels inc e' t st = Some (Inl (Unexpected_Error exc))) \<and>
      (service t 1 (current_ua_index st) = Resp_OK epg_data \<and>
       process_response channels epg_data (programs st) = Inr ps \<longrightarrow>
         fetch_windows service channels inc e' t st =
           fetch_windows service channels inc e' (t + inc * 3600)
             (st\<lparr>programs := ps, consecutive_403_errors := 0\<rparr>)))"
  unfolding fetch_windows_unfold[OF assms]
  by (auto simp: length_api_endpoints length_user_agents Let_def)

text \<open>
  C6, as the code has it. In any window (\<open>current_time < end_time'\<close>) and any state of
  the fetch: an HTTP status other than 403 ends the whole fetch at once, on the first
  endpoint and, after the first endpoint has fallen through, on the second; so does a
  response that is not JSON, and so does any other exception. A \<^verbatim>\<open>URLError\<close> that is
  not an HTTP status falls through from the first endpoint to the second, like a 403, and
  ends the whole fetch on the second, the last one. When the second endpoint answers
  after the first has fallen through, the fetch goes on to the next window (or ends when
  the processing of the answer raises), and when it answers 403 the endpoint loop is
  exhausted and the fetch ends. And a window
  of \<^verbatim>\<open>get_epg_data\<close> in which one of these errors ends the endpoint loop makes the
  call raise, whichever window it is.
\<close>

theorem transport_error_by_endpoint:
  "(current_time < end_time' \<longrightarrow>
     (service current_time 0 (current_ua_index st) = Resp_HTTPError code \<and> code \<noteq> 403 \<longrightarrow>
        fetch_windows service channels hours_increment end_time' current_time st =
          Some (Inl (HTTP_Error code))) \<and>
     (service current_time 0 (current_ua_index st) = Resp_JSONDecodeError \<longrightarrow>
        fetch_windows service channels hours_increment end_time' current_time st =
          Some (Inl EPG_Invalid_JSON)) \<and>
     (service current_time 0 (current_ua_index st) = Resp_OtherError exc \<longrightarrow>
        fetch_windows service channels hours_increment end_time' current_time st =
          Some (Inl (Unexpected_Error exc))) \<and>
     (service current_time 0 (current_ua_index st) = Resp_URLError \<or>
      service current_time 0 (current_ua_index st) = Resp_HTTPError 403 \<longrightarrow>
        (service current_time 1 (current_ua_index st) = Resp_URLError \<longrightarrow>
           fetch_windows service channels hours_increment end_time' current_time st =
             Some (Inl Failed_To_Retrieve)) \<and>
        (service current_time 1 (current_ua_index st) = Resp_HTTPError code \<and> code \<noteq> 403 \<longrightarrow>
           fetch_windows service channels hours_increment end_time' current_time st =
             Some (Inl (HTTP_Error code))) \<and>
        (service current_time 1 (current_ua_index st) = Resp_JSONDecodeError \<longrightarrow>
           fetch_windows service channels hours_increment end_time' current_time st =
             Some (Inl EPG_Invalid_JSON)) \<and>
        (service current_time 1 (current_ua_index st) = Resp_OtherError exc \<longrightarrow>
           fetch_windows service channels hours_increment end_time' current_time st =
             Some (Inl (Unexpected_Error exc))) \<and>
        (service current_time 1 (current_ua_index st) = Resp_HTTPError 403 \<and>
         consecutive_403_errors st = 0 \<longrightarrow>
           fetch_windows service channels hours_increment end_time' current_time st =
             Some (Inl Failed_From_Any_Endpoint)) \<and>
        (service current_time 1 (current_ua_index st) = Resp_OK epg_data \<and>
         process_response channels epg_data (programs st) = Inl exc \<longrightarrow>
           fetch_windows service channels hours_increment end_time' current_time st =
             Some (Inl (Unexpected_Error exc))) \<and>
        (service current_time 1 (current_ua_index st) = Resp_OK epg_data \<and>
         process_response channels epg_data (programs st) = Inr ps \<longrightarrow>
           fetch_windows service channels hours_increment end_time' current_time st =
             fetch_windows service channels hours_increment end_time'
               (current_time + hours_increment * 3600)
               (st\<lparr>programs := ps, consecutive_403_errors := 0\<rparr>)))) \<and>
   (0 < hours_increment \<and> now + int k * (hours_increment * 3600) < now + days * 86400 \<and>
    (let r0 = service (now + int k * (hours_increment * 3600)) 0 0;
         r1 = service (now + int k * (hours_increment * 3600)) 1 0
     in r0 = Resp_HTTPError code \<and> code \<noteq> 403 \<or> r0 = Resp_JSONDecodeError \<or>
        r0 = Resp_OtherError exc \<or>
        (r0 = Resp_URLError \<or> r0 = Resp_HTTPError 403) \<and>
        (r1 = Resp_URLError \<or> r1 = Resp_HTTPError code \<and> code \<noteq> 403 \<or>
         r1 = Resp_JSONDecodeError \<or> r1 = Resp_OtherError exc)) \<longrightarrow>
      (\<exists>err. get_epg_data service channels now days hours_increment = Some (Inl err)))"
proof (rule conjI)
  show "current_time < end_time' \<longrightarrow>
     (service current_time 0 (current_ua_index st) = Resp_HTTPError code \<and> code \<noteq> 403 \<longrightarrow>
        fetch_windows service channels hours_increment end_time' current_time st =
          Some (Inl (HTTP_Error code))) \<and>
     (service current_time 0 (current_ua_index st) = Resp_JSONDecodeError \<longrightarrow>
        fetch_windows service channels hours_increment end_time' current_time st =
          Some (Inl EPG_Invalid_JSON)) \<and>
     (service current_time 0 (current_ua_index st) = Resp_OtherError exc \<longrightarrow>
        fetch_windows service channels hours_increment end_time' current_time st =
          Some (Inl (Unexpected_Error exc))) \<and>
     (service current_time 0 (current_ua_index st) = Resp_URLError \<or>
      service current_time 0 (current_ua_index st) = Resp_HTTPError 403 \<longrightarrow>
        (service current_time 1 (current_ua_index st) = Resp_URLError \<longrightarrow>
           fetch_windows service channels hours_increment end_time' current_time st =
             Some (Inl Failed_To_Retrieve)) \<and>
        (service current_time 1 (current_ua_index st) = Resp_HTTPError code \<and> code \<noteq> 403 \<longrightarrow>
           fetch_windows service channels hours_increment end_time' current_time st =
             Some (Inl (HTTP_Error code))) \<and>
        (service current_time 1 (current_ua_index st) = Resp_JSONDecodeError \<longrightarrow>
           fetch_windows service channels hours_increment end_time' current_time st =
             Some (Inl EPG_Invalid_JSON)) \<and>
        (service current_time 1 (current_ua_index st) = Resp_OtherError exc \<longrightarrow>
           fetch_windows service channels hours_increment end_time' current_time st =
             Some (Inl (Unexpected_Error exc))) \<and>
        (service current_time 1 (current_ua_index st) = Resp_HTTPError 403 \<and>
         consecutive_403_errors st = 0 \<longrightarrow>
           fetch_windows service channels hours_increment end_time' current_time st =
             Some (Inl Failed_From_Any_Endpoint)) \<and>
        (service current_time 1 (current_ua_index st) = Resp_OK epg_data \<and>
         process_response channels epg_data (programs st) = Inl exc \<longrightarrow>
           fetch_windows service channels hours_increment end_time' current_time st =
             Some (Inl (Unexpected_Error exc))) \<and>
        (service current_time 1 (current_ua_index st) = Resp_OK epg_data \<and>
         process_response channels epg_data (programs st) = Inr ps \<longrightarrow>
           fetch_windows service channels hours_increment end_time' current_time st =
             fetch_windows service channels hours_increment end_time'
               (current_time + hours_increment * 3600)
               (st\<lparr>programs := ps, consecutive_403_errors := 0\<rparr>)))"
    using window_transport_error[of current_time end_time' service st code channels
        hours_increment exc epg_data ps]
    by blast
next
  show "0 < hours_increment \<and> now + int k * (hours_increment * 3600) < now + days * 86400 \<and>
    (let r0 = service (now + int k * (hours_increment * 3600)) 0 0;
         r1 = service (now + int k * (hours_increment * 3600)) 1 0
     in r0 = Resp_HTTPError code \<and> code \<noteq> 403 \<or> r0 = Resp_JSONDecodeError \<or>
        r0 = Resp_OtherError exc \<or>
        (r0 = Resp_URLError \<or> r0 = Resp_HTTPError 403) \<and>
        (r1 = Resp_URLError \<or> r1 = Resp_HTTPError code \<and> code \<noteq> 403 \<or>
         r1 = Resp_JSONDecodeError \<or> r1 = Resp_OtherError exc)) \<longrightarrow>
      (\<exists>err. get_epg_data service channels now days hours_increment = Some (Inl err))"
  proof
    let ?t = "now + int k * (hours_increment * 3600)"
    assume h: "0 < hours_increment \<and> ?t < now + days * 86400 \<and>
      (let r0 = service ?t 0 0; r1 = service ?t 1 0
       in r0 = Resp_HTTPError code \<and> code \<noteq> 403 \<or> r0 = Resp_JSONDecodeError \<or>
          r0 = Resp_OtherError exc \<or>
          (r0 = Resp_URLError \<or> r0 = Resp_HTTPError 403) \<and>
          (r1 = Resp_URLError \<or> r1 = Resp_HTTPError code \<and> code \<noteq> 403 \<or>
           r1 = Resp_JSONDecodeError \<or> r1 = Resp_OtherError exc))"
    then have lt: "?t < now + days * 86400" by blast
    have "\<exists>err. fetch_windows service channels hours_increment (now + days * 86400) now
            \<lparr>programs = [], current_ua_index = 0, consecutive_403_errors = 0\<rparr> = Some (Inl err)"
    proof (rule fetch_aborts_at_window[where k = k])
      show "0 < hours_increment" using h by blast
      show "?t < now + days * 86400" by (rule lt)
    next
      fix st' :: fetch_state
      assume "current_ua_index st' =
        current_ua_index \<lparr>programs = [], current_ua_index = 0, consecutive_403_errors = 0\<rparr>"
      then have ua: "current_ua_index st' = 0" by simp
      from h window_transport_error[OF lt, of service st' code channels hours_increment exc]
      show "\<exists>err. fetch_windows service channels hours_increment (now + days * 86400) ?t st'
              = Some (Inl err)"
        unfolding ua Let_def by blast
    qed
    then show "\<exists>err. get_epg_data service channels now days hours_increment = Some (Inl err)"
      by (simp add: get_epg_data_def)
  qed
qed

theorem transport_error_by_endpoint_witness:
  "fetch_windows (\<lambda>t e u. Resp_URLError) [example_channel] 24 10 0
     \<lparr>programs = [], current_ua_index = 0, consecutive_403_errors = 0\<rparr> =
     Some (Inl Failed_To_Retrieve) \<and>
   fetch_windows (\<lambda>t e u. if e = 0 then Resp_URLError else Resp_HTTPError 500)
     [example_channel] 24 10 0
     \<lparr>programs = [], current_ua_index = 0, consecutive_403_errors = 0\<rparr> =
     Some (Inl (HTTP_Error 500)) \<and>
   fetch_windows (\<lambda>t e u. if e = 0 then Resp_URLError else Resp_OK (JArr []))
     [example_channel] 24 10 0
     \<lparr>programs = [], current_ua_index = 0, consecutive_403_errors = 0\<rparr> = Some (Inr []) \<and>
   fetch_windows (\<lambda>t e u. Resp_HTTPError 500) [example_channel] 24 10 0
     \<lparr>programs = [], current_ua_index = 0, consecutive_403_errors = 0\<rparr> =
     Some (Inl (HTTP_Error 500)) \<and>
   fetch_windows (\<lambda>t e u. Resp_JSONDecodeError) [example_channel] 24 10 0
     \<lparr>programs = [], current_ua_index = 0, consecutive_403_errors = 0\<rparr> =
     Some (Inl EPG_Invalid_JSON) \<and>
   fetch_windows (\<lambda>t e u. Resp_OtherError OSError) [example_channel] 24 10 0
     \<lparr>programs = [], current_ua_index = 0, consecutive_403_errors = 0\<rparr> =
     Some (Inl (Unexpected_Error OSError)) \<and>
   fetch_windows (\<lambda>t e u. if e = 0 then Resp_HTTPError 403 else Resp_JSONDecodeError)
     [example_channel] 24 10 0
     \<lparr>programs = [rec_a], current_ua_index = 1, consecutive_403_errors = 0\<rparr> =
     Some (Inl EPG_Invalid_JSON) \<and>
   fetch_windows (\<lambda>t e u. if e = 0 then Resp_HTTPError 403 else Resp_OtherError OSError)
     [example_channel] 24 10 0
     \<lparr>programs = [rec_a], current_ua_index = 1, consecutive_403_errors = 0\<rparr> =
     Some (Inl (Unexpected_Error OSError)) \<and>
   (\<exists>err. get_epg_data
      (\<lambda>t e u. if t = 0 then Resp_OK (JArr []) else if e = 0 then Resp_HTTPError 403
                else Resp_HTTPError 500)
      [example_channel] 0 1 3 = Some (Inl err))"
proof -
  let ?st = "\<lparr>programs = [], current_ua_index = 0, consecutive_403_errors = 0\<rparr>"
  let ?late = "\<lambda>(t::int) (e::nat) (u::nat).
      if t = 0 then Resp_OK (JArr []) else if e = 0 then Resp_HTTPError 403
      else Resp_HTTPError 500"
  have c1: "fetch_windows (\<lambda>t e u. Resp_URLError) [example_channel] 24 10 0 ?st =
     Some (Inl Failed_To_Retrieve)"
    using transport_error_by_endpoint[where current_time = 0 and end_time' = 10
      and service = "\<lambda>t e u. Resp_URLError" and st = ?st and channels = "[example_channel]"
      and hours_increment = 24]
    by simp
  have c2: "fetch_windows (\<lambda>t e u. if e = 0 then Resp_URLError else Resp_HTTPError 500)
     [example_channel] 24 10 0 ?st = Some (Inl (HTTP_Error 500))"
    using transport_error_by_endpoint[where current_time = 0 and end_time' = 10
      and service = "\<lambda>t e u. if e = 0 then Resp_URLError else Resp_HTTPError 500"
      and st = ?st and channels = "[example_channel]" and hours_increment = 24 and code = 500]
    by simp
  have c3: "fetch_windows (\<lambda>t e u. if e = 0 then Resp_URLError else Resp_OK (JArr []))
     [example_channel] 24 10 0 ?st = Some (Inr [])"
    using transport_error_by_endpoint[where current_time = 0 and end_time' = 10
      and service = "\<lambda>t e u. if e = 0 then Resp_URLError else Resp_OK (JArr [])"
      and st = ?st and channels = "[example_channel]" and hours_increment = 24
      and epg_data = "JArr []" and ps = "[]"]
    by (simp add: process_response_def fetch_windows.simps)
  have c4: "fetch_windows (\<lambda>t e u. Resp_HTTPError 500) [example_channel] 24 10 0 ?st =
     Some (Inl (HTTP_Error 500))"
    using transport_error_by_endpoint[where current_time = 0 and end_time' = 10
      and service = "\<lambda>t e u. Resp_HTTPError 500" and st = ?st
      and channels = "[example_channel]" and hours_increment = 24 and code = 500]
    by simp
  have c5: "fetch_windows (\<lambda>t e u. Resp_JSONDecodeError) [example_channel] 24 10 0 ?st =
     Some (Inl EPG_Invalid_JSON)"
    using transport_error_by_endpoint[where current_time = 0 and end_time' = 10
      and service = "\<lambda>t e u. Resp_JSONDecodeError" and st = ?st
      and channels = "[example_channel]" and hours_increment = 24]
    by simp
  have c6: "\<exists>err. get_epg_data ?late [example_channel] 0 1 3 = Some (Inl err)"
    using transport_error_by_endpoint[where service = ?late and now = 0 and k = 2
      and hours_increment = 3 and days = 1 and code = 500 and channels = "[example_channel]"]
    by simp
  have c7: "fetch_windows (\<lambda>t e u. Resp_OtherError OSError) [example_channel] 24 10 0 ?st =
     Some (Inl (Unexpected_Error OSError))"
    using transport_error_by_endpoint[where current_time = 0 and end_time' = 10
      and service = "\<lambda>t e u. Resp_OtherError OSError" and st = ?st
      and channels = "[example_channel]" and hours_increment = 24 and exc = OSError]
    by simp
  have c8: "fetch_windows (\<lambda>t e u. if e = 0 then Resp_HTTPError 403 else Resp_JSONDecodeError)
     [example_channel] 24 10 0
     \<lparr>programs = [rec_a], current_ua_index = 1, consecutive_403_errors = 0\<rparr> =
     Some (Inl EPG_Invalid_JSON)"
    using transport_error_by_endpoint[where current_time = 0 and end_time' = 10
      and service = "\<lambda>t e u. if e = 0 then Resp_HTTPError 403 else Resp_JSONDecodeError"
      and st = "\<lparr>programs = [rec_a], current_ua_index = 1, consecutive_403_errors = 0\<rparr>"
      and channels = "[example_channel]" and hours_increment = 24]
    by simp
  have c9: "fetch_windows (\<lambda>t e u. if e = 0 then Resp_HTTPError 403 else Resp_OtherError OSError)
     [example_channel] 24 10 0
     \<lparr>programs = [rec_a], current_ua_index = 1, consecutive_403_errors = 0\<rparr> =
     Some (Inl (Unexpected_Error OSError))"
    using transport_error_by_endpoint[where current_time = 0 and end_time' = 10
      and service = "\<lambda>t e u. if e = 0 then Resp_HTTPError 403 else Resp_OtherError OSError"
      and st = "\<lparr>programs = [rec_a], current_ua_index = 1, consecutive_403_errors = 0\<rparr>"
      and channels = "[example_channel]" and hours_increment = 24 and exc = OSError]
    by simp
  from c1 c2 c3 c4 c5 c6 c7 c8 c9 show ?thesis by blast
qed

text \<open>
  C6 as stated fails: an HTTP 500 from the first of the two endpoints aborts the fetch,
  although the second endpoint would have answered.
\<close>

theorem http_error_on_first_endpoint_counterexample:
  "get_epg_data (\<lambda>t e u. if e = 0 then Resp_HTTPError 500 else Resp_OK (JArr []))
     [example_channel] 0 1 24 = Some (Inl (HTTP_Error 500))"
  by (simp add: get_epg_data_def fetch_windows.simps length_api_endpoints upt_2)

subsection \<open>Entries that do not parse\<close>

lemma window_entry_fails:
  assumes "t < e'" and "answered service t (current_ua_index st) (JArr groups)"
    and "lineup_entry channels groups g pd" and "parse_program_data pd g = Inl exc"
  shows "\<exists>exc'. fetch_windows service channels inc e' t st = Some (Inl (Unexpected_Error exc'))"
proof -
  from process_channels_fails[OF assms(3,4), of "programs st"] obtain exc' where
    "process_response channels (JArr groups) (programs st) = Inl exc'"
    by (auto simp: process_response_def)
  with window_step[OF assms(1,2), of channels inc] show ?thesis by simp
qed

text \<open>
  C7, as the code has it. An entry whose \<^verbatim>\<open>StartTime\<close> and \<^verbatim>\<open>EndTime\<close> are integers
  a \<^verbatim>\<open>datetime\<close> can hold (and whose \<^verbatim>\<open>OriginalAirdate\<close>, if there is one, is too)
  parses whatever other fields it has or lacks, each optional field read with its
  default; nothing is logged. An entry without \<^verbatim>\<open>StartTime\<close>, or without
  \<^verbatim>\<open>EndTime\<close>, raises \<^verbatim>\<open>KeyError\<close>, and one whose \<^verbatim>\<open>StartTime\<close> is an integer
  outside the range of \<^verbatim>\<open>datetime\<close> raises too. And an entry that does not parse is
  fatal wherever it is: when it is in the guide of a lineup channel in the document that
  answers a window, the fetch raises in that window, in whatever state it reached it, and
  \<^verbatim>\<open>get_epg_data\<close> raises whichever window it is; no record is returned.
\<close>

theorem entry_parse_failure_aborts_fetch:
  "(map_of kvs ''StartTime'' = Some (JNum s) \<and> representable s \<and>
    map_of kvs ''EndTime'' = Some (JNum e) \<and> representable e \<and>
    (map_of kvs ''OriginalAirdate'' = None \<or>
     map_of kvs ''OriginalAirdate'' = Some (JNum a) \<and> representable a) \<longrightarrow>
      parse_program_data (JObj kvs) g =
        Inr \<lparr>title = get_or kvs ''Title'' (JStr ''''), start_time = s, end_time = e,
             guide_number = g,
             synopsis = get_or kvs ''Synopsis'' JNull,
             episode_title = get_or kvs ''EpisodeTitle'' JNull,
             episode_number = get_or kvs ''EpisodeNumber'' JNull,
             image_url = get_or kvs ''ImageURL'' JNull,
             original_airdate =
               (case map_of kvs ''OriginalAirdate'' of None \<Rightarrow> None | Some v \<Rightarrow> Some a),
             filters = get_or kvs ''Filter'' (JArr []),
             first = get_or kvs ''First'' JNull\<rparr>) \<and>
   (map_of kvs ''StartTime'' = None \<or>
    (map_of kvs ''StartTime'' = Some (JNum s) \<and> representable s \<and>
     map_of kvs ''EndTime'' = None) \<longrightarrow>
      parse_program_data (JObj kvs) g = Inl KeyError) \<and>
   (map_of kvs ''StartTime'' = Some (JNum s) \<and> \<not> representable s \<longrightarrow>
      parse_program_data (JObj kvs) g = Inl (timestamp_error s)) \<and>
   (current_time < end_time' \<and>
    answered service current_time (current_ua_index st) (JArr groups) \<and>
    lineup_entry channels groups g pd \<and> parse_program_data pd g = Inl exc \<longrightarrow>
      (\<exists>exc'. fetch_windows service channels hours_increment end_time' current_time st =
                Some (Inl (Unexpected_Error exc')))) \<and>
   (0 < hours_increment \<and> now + int k * (hours_increment * 3600) < now + days * 86400 \<and>
    answered service (now + int k * (hours_increment * 3600)) 0 (JArr groups) \<and>
    lineup_entry channels groups g pd \<and> parse_program_data pd g = Inl exc \<longrightarrow>
      (\<exists>err. get_epg_data service channels now days hours_increment = Some (Inl err)))"
proof (intro conjI impI)
  assume "map_of kvs ''StartTime'' = Some (JNum s) \<and> representable s \<and>
    map_of kvs ''EndTime'' = Some (JNum e) \<and> representable e \<and>
    (map_of kvs ''OriginalAirdate'' = None \<or>
     map_of kvs ''OriginalAirdate'' = Some (JNum a) \<and> representable a)"
  then show "parse_program_data (JObj kvs) g =
        Inr \<lparr>title = get_or kvs ''Title'' (JStr ''''), start_time = s, end_time = e,
             guide_number = g,
             synopsis = get_or kvs ''Synopsis'' JNull,
             episode_title = get_or kvs ''EpisodeTitle'' JNull,
             episode_number = get_or kvs ''EpisodeNumber'' JNull,
             image_url = get_or kvs ''ImageURL'' JNull,
             original_airdate =
               (case map_of kvs ''OriginalAirdate'' of None \<Rightarrow> None | Some v \<Rightarrow> Some a),
             filters = get_or kvs ''Filter'' (JArr []),
             first = get_or kvs ''First'' JNull\<rparr>"
    by (intro parse_numeric_entry) blast+
next
  assume "map_of kvs ''StartTime'' = None \<or>
    (map_of kvs ''StartTime'' = Some (JNum s) \<and> representable s \<and>
     map_of kvs ''EndTime'' = None)"
  then show "parse_program_data (JObj kvs) g = Inl KeyError"
    by (auto simp: parse_program_data_def)
next
  assume "map_of kvs ''StartTime'' = Some (JNum s) \<and> \<not> representable s"
  then show "parse_program_data (JObj kvs) g = Inl (timestamp_error s)"
    by (simp add: parse_program_data_def)
next
  assume "current_time < end_time' \<and>
    answered service current_time (current_ua_index st) (JArr groups) \<and>
    lineup_entry channels groups g pd \<and> parse_program_data pd g = Inl exc"
  then show "\<exists>exc'. fetch_windows service channels hours_increment end_time' current_time st =
                Some (Inl (Unexpected_Error exc'))"
    using window_entry_fails[of current_time end_time' service st groups channels g pd exc
        hours_increment]
    by blast
next
  let ?t = "now + int k * (hours_increment * 3600)"
  assume h: "0 < hours_increment \<and> ?t < now + days * 86400 \<and>
    answered service ?t 0 (JArr groups) \<and>
    lineup_entry channels groups g pd \<and> parse_program_data pd g = Inl exc"
  then have lt: "?t < now + days * 86400" and a: "answered service ?t 0 (JArr groups)"
    and l: "lineup_entry channels groups g pd" and p: "parse_program_data pd g = Inl exc"
    by blast+
  have "\<exists>err. fetch_windows service channels hours_increment (now + days * 86400) now
          \<lparr>programs = [], current_ua_index = 0, consecutive_403_errors = 0\<rparr> = Some (Inl err)"
  proof (rule fetch_aborts_at_window[where k = k])
    show "0 < hours_increment" using h by blast
    show "?t < now + days * 86400" by (rule lt)
  next
    fix st' :: fetch_state
    assume "current_ua_index st' =
      current_ua_index \<lparr>programs = [], current_ua_index = 0, consecutive_403_errors = 0\<rparr>"
    then have ua: "current_ua_index st' = 0" by simp
    from a have "answered service ?t (current_ua_index st') (JArr groups)"
      by (simp only: ua)
    from window_entry_fails[OF lt this l p, of hours_increment]
    show "\<exists>err. fetch_windows service channels hours_increment (now + days * 86400) ?t st'
            = Some (Inl err)"
      by blast
  qed
  then show "\<exists>err. get_epg_data service channels now days hours_increment = Some (Inl err)"
    by (simp add: get_epg_data_def)
qed

theorem entry_parse_failure_aborts_fetch_witness:
  "parse_program_data (JObj [(''StartTime'', JNum 0), (''EndTime'', JNum 60)]) (JStr ''5.1'') =
     Inr \<lparr>title = JStr '''', start_time = 0, end_time = 60, guide_number = JStr ''5.1'',
          synopsis = JNull, episode_title = JNull, episode_number = JNull, image_url = JNull,
          original_airdate = None, filters = JArr [], first = JNull\<rparr> \<and>
   parse_program_data (JObj [(''EndTime'', JNum 120), (''Title'', JStr ''Late'')]) (JStr ''5.1'') =
     Inl KeyError \<and>
   parse_program_data (JObj [(''StartTime'', JNum 253402300800), (''EndTime'', JNum 0)])
     (JStr ''5.1'') = Inl ValueError \<and>
   (\<exists>exc'. fetch_windows
      (\<lambda>t e u. if e = 0 then Resp_HTTPError 403 else Resp_OK (guide_of
         [JObj [(''StartTime'', JNum 0), (''EndTime'', JNum 60)],
          JObj [(''EndTime'', JNum 120), (''Title'', JStr ''Late'')]]))
      [example_channel] 24 10 0
      \<lparr>programs = [rec_b], current_ua_index = 2, consecutive_403_errors = 0\<rparr> =
        Some (Inl (Unexpected_Error exc'))) \<and>
   (\<exists>err. get_epg_data
      (\<lambda>t e u. if t = 0 then Resp_OK (JArr []) else Resp_OK (guide_of
         [JObj [(''StartTime'', JNum 0), (''EndTime'', JNum 60)],
          JObj [(''EndTime'', JNum 120), (''Title'', JStr ''Late'')]]))
      [example_channel] 0 1 3 = Some (Inl err))"
proof -
  let ?good = "[(''StartTime'', JNum 0), (''EndTime'', JNum 60)]"
  let ?bad = "[(''EndTime'', JNum 120), (''Title'', JStr ''Late'')]"
  let ?groups = "[JObj [(''GuideNumber'', JStr ''5.1''),
                        (''Guide'', JArr [JObj ?good, JObj ?bad])]]"
  let ?second = "\<lambda>(t::int) (e::nat) (u::nat).
      if e = 0 then Resp_HTTPError 403 else Resp_OK (guide_of [JObj ?good, JObj ?bad])"
  let ?late = "\<lambda>(t::int) (e::nat) (u::nat).
      if t = 0 then Resp_OK (JArr []) else Resp_OK (guide_of [JObj ?good, JObj ?bad])"
  have r: "representable 0" "representable 60" "\<not> representable 253402300800"
    by (simp_all add: representable_def datetime_min_def datetime_max_def)
  have te: "timestamp_error 253402300800 = ValueError"
    by (simp add: timestamp_error_def)
  have l: "lineup_entry [example_channel] ?groups (JStr ''5.1'') (JObj ?bad)"
    by (simp add: lineup_entry_def get_or_def example_channel_def py_eq_def)
  have f: "parse_program_data (JObj ?bad) (JStr ''5.1'') = Inl KeyError"
    by (simp add: parse_program_data_def)
  have a1: "answered ?second 0 2 (JArr ?groups)"
    by (simp add: answered_def guide_of_def)
  have a2: "answered ?late (0 + int 1 * (3 * 3600)) 0 (JArr ?groups)"
    by (simp add: answered_def guide_of_def)
  have c1: "parse_program_data (JObj ?good) (JStr ''5.1'') =
     Inr \<lparr>title = JStr '''', start_time = 0, end_time = 60, guide_number = JStr ''5.1'',
          synopsis = JNull, episode_title = JNull, episode_number = JNull, image_url = JNull,
          original_airdate = None, filters = JArr [], first = JNull\<rparr>"
    using entry_parse_failure_aborts_fetch
      [where kvs = ?good and s = 0 and e = 60 and g = "JStr ''5.1''"] r
    by (simp add: get_or_def)
  have c2: "parse_program_data (JObj ?bad) (JStr ''5.1'') = Inl KeyError"
    using entry_parse_failure_aborts_fetch[where kvs = ?bad and g = "JStr ''5.1''"]
    by simp
  have c3: "parse_program_data (JObj [(''StartTime'', JNum 253402300800), (''EndTime'', JNum 0)])
     (JStr ''5.1'') = Inl ValueError"
    using entry_parse_failure_aborts_fetch
      [where kvs = "[(''StartTime'', JNum 253402300800), (''EndTime'', JNum 0)]"
         and s = 253402300800 and g = "JStr ''5.1''"] r te
    by simp
  have c4: "\<exists>exc'. fetch_windows ?second [example_channel] 24 10 0
      \<lparr>programs = [rec_b], current_ua_index = 2, consecutive_403_errors = 0\<rparr> =
        Some (Inl (Unexpected_Error exc'))"
    using entry_parse_failure_aborts_fetch
      [where current_time = 0 and end_time' = 10 and service = ?second
         and st = "\<lparr>programs = [rec_b], current_ua_index = 2, consecutive_403_errors = 0\<rparr>"
         and groups = ?groups and channels = "[example_channel]" and g = "JStr ''5.1''"
         and pd = "JObj ?bad" and exc = KeyError and hours_increment = 24] a1 l f
    by simp
  have c5: "\<exists>err. get_epg_data ?late [example_channel] 0 1 3 = Some (Inl err)"
    using entry_parse_failure_aborts_fetch
      [where now = 0 and k = 1 and hours_increment = 3 and days = 1 and service = ?late
         and groups = ?groups and channels = "[example_channel]" and g = "JStr ''5.1''"
         and pd = "JObj ?bad" and exc = KeyError] a2 l f
    by simp
  from c1 c2 c3 c4 c5 show ?thesis by blast
qed

text \<open>
  C7 as stated fails: a response whose second entry lacks \<^verbatim>\<open>StartTime\<close> makes the
  fetch raise, and the first, well-formed entry is not returned either.
\<close>

theorem malformed_entry_aborts_fetch_counterexample:
  "get_epg_data
     (\<lambda>t e u. Resp_OK (guide_of
        [JObj [(''StartTime'', JNum 0), (''EndTime'', JNum 60)],
         JObj [(''EndTime'', JNum 120), (''Title'', JStr ''Late'')]]))
     [example_channel] 0 1 24 = Some (Inl (Unexpected_Error KeyError))"
  by (simp add: get_epg_data_def fetch_windows.simps length_api_endpoints upt_2
      process_response_def parse_program_data_def get_or_def add_unique_def is_duplicate_def
      guide_of_def example_channel_def py_eq_def representable_def datetime_min_def
      datetime_max_def)

section \<open>Properties of discovery and of the lineup\<close>








subsection \<open>The lineup\<close>

lemma parse_channels_objects:
  "parse_channels (map JObj objs) =
     Inr (map (\<lambda>kvs.
       \<lparr>ch_guide_number = (case map_of kvs ''GuideNumber'' of None \<Rightarrow> JStr '''' | Some v \<Rightarrow> v),
        ch_guide_name = (case map_of kvs ''GuideName'' of None \<Rightarrow> JStr ''Unknown'' | Some v \<Rightarrow> v),
        ch_url = (case map_of kvs ''URL'' of None \<Rightarrow> JStr '''' | Some v \<Rightarrow> v),
        ch_image_url = (case map_of kvs ''ImageURL'' of None \<Rightarrow> JNull | Some v \<Rightarrow> v)\<rparr>) objs)"
  by (induction objs) (simp_all add: parse_channel_def)

text \<open>
  C10. A lineup that is a JSON array of objects never fails: each object gives one
  channel, a missing \<^verbatim>\<open>GuideNumber\<close> read as the empty string, a missing
  \<^verbatim>\<open>GuideName\<close> as \<^verbatim>\<open>"Unknown"\<close>, a missing \<^verbatim>\<open>URL\<close> as the empty string and a
  missing \<^verbatim>\<open>ImageURL\<close> as \<^verbatim>\<open>None\<close>. The lineup failure is raised exactly for a
  network error (an HTTP status among them) and for a response that is not JSON.
\<close>

theorem lineup_defaults_for_missing_fields:
  "get_channels (Resp_OK (JArr (map JObj objs))) =
     Inr (map (\<lambda>kvs.
       \<lparr>ch_guide_number = (case map_of kvs ''GuideNumber'' of None \<Rightarrow> JStr '''' | Some v \<Rightarrow> v),
        ch_guide_name = (case map_of kvs ''GuideName'' of None \<Rightarrow> JStr ''Unknown'' | Some v \<Rightarrow> v),
        ch_url = (case map_of kvs ''URL'' of None \<Rightarrow> JStr '''' | Some v \<Rightarrow> v),
        ch_image_url = (case map_of kvs ''ImageURL'' of None \<Rightarrow> JNull | Some v \<Rightarrow> v)\<rparr>) objs) \<and>
   ((\<exists>e. get_channels lineup = Inl (API_Error e)) \<longleftrightarrow>
      (lineup = Resp_URLError \<or> (\<exists>code. lineup = Resp_HTTPError code) \<or>
       lineup = Resp_JSONDecodeError))"
  by (auto simp: get_channels_def parse_channels_objects split: response.splits sum.splits)

theorem lineup_defaults_for_missing_fields_witness:
  "get_channels (Resp_OK (JArr [JObj [(''GuideNumber'', JStr ''5.1'')], JObj []])) =
     Inr [\<lparr>ch_guide_number = JStr ''5.1'', ch_guide_name = JStr ''Unknown'', ch_url = JStr '''',
           ch_image_url = JNull\<rparr>,
          \<lparr>ch_guide_number = JStr '''', ch_guide_name = JStr ''Unknown'', ch_url = JStr '''',
           ch_image_url = JNull\<rparr>] \<and>
   get_channels (Resp_HTTPError 404) = Inl (API_Error Lineup_Failed) \<and>
   get_channels (Resp_OK (JArr [JNum 7])) = Inl (Uncaught AttributeError)"
  using lineup_defaults_for_missing_fields[of "[[(''GuideNumber'', JStr ''5.1'')], []]" "Resp_HTTPError 404"]
  by (simp add: get_channels_def parse_channel_def)

section \<open>Properties of the converter\<close>

subsection \<open>Repeat and new status\<close>

lemma midnight_eq: "(a - a mod 86400 \<noteq> b - b mod 86400) = (a div 86400 \<noteq> b div (86400::int))"
  by (simp add: minus_mod_eq_mult_div)

lemma digit_chars:
  "digit_char 0 = CHR ''0''" "digit_char 1 = CHR ''1''" "digit_char 2 = CHR ''2''"
  "digit_char 3 = CHR ''3''" "digit_char 4 = CHR ''4''" "digit_char 5 = CHR ''5''"
  "digit_char 6 = CHR ''6''" "digit_char 7 = CHR ''7''" "digit_char 8 = CHR ''8''"
  "digit_char 9 = CHR ''9''" "digit_char (Suc 0) = CHR ''1''"
  by (simp_all add: digit_char_def char_of_def bit_0)

lemma show_int_example: "show_int (- 118000) = ''-118000''"
  by (simp add: show_int_def show_nat.simps digit_chars)

text \<open>
  C2, as the code has it. \<^verbatim>\<open>_add_episode_status\<close> appends to the programme element
  exactly the marker the decision table gives, and nothing when the table gives none,
  whenever the first-run flag is true, or there is no original airdate, or the broadcast
  start and the airdate both have a local time in the target zone that a \<^verbatim>\<open>datetime\<close>
  can hold: \<^verbatim>\<open>new\<close> when the flag is true; else, with an original airdate,
  \<^verbatim>\<open>previously-shown\<close> with the airdate's local timestamp (formatted without offset)
  when the local calendar dates of broadcast and airdate differ, a bare
  \<^verbatim>\<open>previously-shown\<close> when they are equal and the flag is false, nothing when they are
  equal and the flag is unknown; else a bare \<^verbatim>\<open>previously-shown\<close> when the flag is
  false, and nothing otherwise. In the remaining case (the flag is not true, there is an
  airdate, and the local time of the start or of the airdate is out of range) nothing is
  appended and a warning is logged. At most one element is appended in every case.
\<close>

theorem episode_status_follows_decision_table:
  "(first program = JBool True \<or>
    (case original_airdate program of
       None \<Rightarrow> True
     | Some a \<Rightarrow> in_zone cv (start_time program) \<and> in_zone cv a) \<longrightarrow>
      add_episode_status cv program_elem program =
        ((case status_decision cv (is_first_run (first program)) (start_time program)
                (original_airdate program) of
            None \<Rightarrow> program_elem
          | Some marker \<Rightarrow> append_child program_elem (marker_element marker)),
         [])) \<and>
   (first program \<noteq> JBool True \<and> original_airdate program = Some a \<and>
    (\<not> in_zone cv (start_time program) \<or> \<not> in_zone cv a) \<longrightarrow>
      add_episode_status cv program_elem program =
        (program_elem, [Error_Processing_Episode_Status (title program) OverflowError])) \<and>
   length (children (fst (add_episode_status cv program_elem program))) \<le>
     Suc (length (children program_elem))"
proof (intro conjI impI)
  assume h: "first program = JBool True \<or>
    (case original_airdate program of
       None \<Rightarrow> True
     | Some a \<Rightarrow> in_zone cv (start_time program) \<and> in_zone cv a)"
  show "add_episode_status cv program_elem program =
        ((case status_decision cv (is_first_run (first program)) (start_time program)
                (original_airdate program) of
            None \<Rightarrow> program_elem
          | Some marker \<Rightarrow> append_child program_elem (marker_element marker)),
         [])"
  proof (cases "first program = JBool True")
    case True
    then show ?thesis
      by (simp add: add_episode_status_def status_decision_def)
  next
    case False
    with h have z: "case original_airdate program of
       None \<Rightarrow> True
     | Some a \<Rightarrow> in_zone cv (start_time program) \<and> in_zone cv a" by blast
    from False have nf: "is_first_run (first program) \<noteq> Is_First_Run"
      by (cases "first program") (auto split: if_splits)
    have nr: "(is_first_run (first program) = Not_First_Run) = (first program = JBool False)"
      by (cases "first program") (auto split: if_splits)
    show ?thesis
    proof (cases "original_airdate program")
      case None
      with False nf nr show ?thesis
        by (simp add: add_episode_status_def status_decision_def)
    next
      case (Some a)
      with z have "in_zone cv (start_time program)" "in_zone cv a" by simp_all
      with Some False nf nr show ?thesis
        by (simp add: add_episode_status_def status_decision_def calendar_date_def
            astimezone_def local_time_def replace_midnight_def Let_def midnight_eq)
    qed
  qed
next
  assume "first program \<noteq> JBool True \<and> original_airdate program = Some a \<and>
    (\<not> in_zone cv (start_time program) \<or> \<not> in_zone cv a)"
  then show "add_episode_status cv program_elem program =
        (program_elem, [Error_Processing_Episode_Status (title program) OverflowError])"
    by (auto simp: add_episode_status_def astimezone_def)
next
  show "length (children (fst (add_episode_status cv program_elem program))) \<le>
     Suc (length (children program_elem))"
    by (simp add: add_episode_status_def astimezone_def append_child_def Let_def
        split: option.splits)
qed

theorem episode_status_follows_decision_table_witness:
  "add_episode_status example_converter example_programme (rec_a\<lparr>first := JBool True\<rparr>) =
     (append_child example_programme (Element ''new'' [] JNull []), []) \<and>
   add_episode_status example_converter example_programme
     (rec_a\<lparr>original_airdate := Some (- 100000)\<rparr>) =
     (append_child example_programme
        (Element ''previously-shown'' [(''start'', JStr ''-118000'')] JNull []), []) \<and>
   add_episode_status example_converter example_programme
     (rec_a\<lparr>original_airdate := Some 60, first := JBool False\<rparr>) =
     (append_child example_programme (Element ''previously-shown'' [] JNull []), []) \<and>
   add_episode_status example_converter example_programme
     (rec_a\<lparr>original_airdate := Some 60\<rparr>) = (example_programme, []) \<and>
   add_episode_status example_converter example_programme
     (rec_a\<lparr>original_airdate := Some (- 62135596800), first := JBool False\<rparr>) =
     (example_programme, [Error_Processing_Episode_Status (JStr ''News'') OverflowError])"
proof -
  have z: "in_zone example_converter 0" "in_zone example_converter 60"
    "in_zone example_converter (- 100000)" "\<not> in_zone example_converter (- 62135596800)"
    by (simp_all add: in_zone_def representable_def datetime_min_def datetime_max_def
        example_converter_def)
  have c1: "add_episode_status example_converter example_programme
      (rec_a\<lparr>first := JBool True\<rparr>) =
     (append_child example_programme (Element ''new'' [] JNull []), [])"
    using episode_status_follows_decision_table
      [of "rec_a\<lparr>first := JBool True\<rparr>" example_converter example_programme]
    by (simp add: status_decision_def)
  have c2: "add_episode_status example_converter example_programme
     (rec_a\<lparr>original_airdate := Some (- 100000)\<rparr>) =
     (append_child example_programme
        (Element ''previously-shown'' [(''start'', JStr ''-118000'')] JNull []), [])"
    using episode_status_follows_decision_table
      [of "rec_a\<lparr>original_airdate := Some (- 100000)\<rparr>" example_converter example_programme] z
    by (simp add: status_decision_def calendar_date_def rec_a_def example_converter_def
        show_int_example)
  have c3: "add_episode_status example_converter example_programme
     (rec_a\<lparr>original_airdate := Some 60, first := JBool False\<rparr>) =
     (append_child example_programme (Element ''previously-shown'' [] JNull []), [])"
    using episode_status_follows_decision_table
      [of "rec_a\<lparr>original_airdate := Some 60, first := JBool False\<rparr>" example_converter
          example_programme] z
    by (simp add: status_decision_def calendar_date_def rec_a_def example_converter_def)
  have c4: "add_episode_status example_converter example_programme
     (rec_a\<lparr>original_airdate := Some 60\<rparr>) = (example_programme, [])"
    using episode_status_follows_decision_table
      [of "rec_a\<lparr>original_airdate := Some 60\<rparr>" example_converter example_programme] z
    by (simp add: status_decision_def calendar_date_def rec_a_def example_converter_def)
  have c5: "add_episode_status example_converter example_programme
     (rec_a\<lparr>original_airdate := Some (- 62135596800), first := JBool False\<rparr>) =
     (example_programme, [Error_Processing_Episode_Status (JStr ''News'') OverflowError])"
    using episode_status_follows_decision_table
      [where program = "rec_a\<lparr>original_airdate := Some (- 62135596800), first := JBool False\<rparr>"
         and a = "- 62135596800" and cv = example_converter
         and program_elem = example_programme] z
    by (simp add: rec_a_def)
  from c1 c2 c3 c4 c5 show ?thesis by blast
qed

text \<open>
  C2 as stated fails: a program broadcast on 1 January 1970 whose original airdate is the
  first instant of year 1, converted for a zone five hours behind UTC. The two local
  calendar dates differ, so the decision table asks for a \<^verbatim>\<open>previously-shown\<close> marker
  with the airdate; the conversion of the airdate overflows, and the code appends nothing
  and logs a warning.
\<close>

theorem airdate_out_of_range_counterexample:
  "first (rec_a\<lparr>original_airdate := Some (- 62135596800)\<rparr>) \<noteq> JBool True \<and>
   original_airdate (rec_a\<lparr>original_airdate := Some (- 62135596800)\<rparr>) =
     Some (- 62135596800) \<and>
   representable (- 62135596800) \<and>
   calendar_date example_converter (start_time (rec_a\<lparr>original_airdate := Some (- 62135596800)\<rparr>))
     \<noteq> calendar_date example_converter (- 62135596800) \<and>
   (\<exists>stamp. status_decision example_converter Unknown_First_Run 0 (Some (- 62135596800)) =
      Some (Previously_Shown (Some stamp))) \<and>
   add_episode_status example_converter example_programme
     (rec_a\<lparr>original_airdate := Some (- 62135596800)\<rparr>) =
     (example_programme, [Error_Processing_Episode_Status (JStr ''News'') OverflowError])"
  by (simp add: rec_a_def example_converter_def calendar_date_def status_decision_def
      add_episode_status_def astimezone_def in_zone_def local_time_def representable_def
      datetime_min_def datetime_max_def)

subsection \<open>Episode numbering\<close>

lemma is_digit_not_space: "is_digit c \<Longrightarrow> \<not> is_int_space c"
  by (auto simp: is_digit_def is_int_space_def)

lemma is_digit_not_sign: "is_digit c \<Longrightarrow> c \<noteq> CHR ''-'' \<and> c \<noteq> CHR ''+'' \<and> c \<noteq> CHR ''_''
    \<and> c \<noteq> CHR ''S'' \<and> c \<noteq> CHR ''E''"
  by (auto simp: is_digit_def)

lemma int_strip_id:
  assumes "s \<noteq> []" "\<not> is_int_space (hd s)" "\<not> is_int_space (last s)"
  shows "rev (dropWhile is_int_space (rev (dropWhile is_int_space s))) = s"
proof -
  from assms have a: "dropWhile is_int_space s = s"
    by (simp add: dropWhile_eq_self_iff)
  from assms have b: "dropWhile is_int_space (rev s) = rev s"
    by (simp add: dropWhile_eq_self_iff hd_rev)
  show ?thesis by (simp add: a b)
qed

lemma digits_tail_ok_all: "list_all is_digit ds \<Longrightarrow> digits_tail_ok ds"
  by (induction ds rule: digits_tail_ok.induct) (auto dest: is_digit_not_sign)

lemma filter_digits: "list_all is_digit ds \<Longrightarrow> filter is_digit ds = ds"
  by (induction ds) auto

lemma py_int_body:
  assumes "ds \<noteq> []" "list_all is_digit ds"
  shows "py_int ds =
     (if length ds \<le> int_max_str_digits then Some (int (digits_val ds)) else None)"
proof -
  from assms have h: "is_digit (hd ds)" and l: "is_digit (last ds)"
    by (auto simp: list_all_iff)
  from assms h l have s: "rev (dropWhile is_int_space (rev (dropWhile is_int_space ds))) = ds"
    by (intro int_strip_id) (auto dest: is_digit_not_space)
  from assms have ok: "digits_ok ds"
    by (cases ds) (auto simp: digits_tail_ok_all)
  from h have ns: "hd ds \<noteq> CHR ''-''" "hd ds \<noteq> CHR ''+''"
    by (auto dest: is_digit_not_sign)
  show ?thesis
    using assms ok ns by (simp add: py_int_def s Let_def filter_digits)
qed

lemma py_int_digits:
  assumes "ds \<noteq> []" "list_all is_digit ds" "length ds \<le> int_max_str_digits"
  shows "py_int ds = Some (int (digits_val ds))"
  using py_int_body[OF assms(1,2)] assms(3) by simp

lemma py_int_long:
  assumes "list_all is_digit ds" "int_max_str_digits < length ds"
  shows "py_int ds = None"
proof -
  from assms(2) have "ds \<noteq> []" by auto
  from py_int_body[OF this assms(1)] assms(2) show ?thesis by simp
qed

lemma str_index_S: "str_index (CHR ''S'' # rest) CHR ''S'' = 0"
  by (simp add: str_index_def)

lemma str_index_E:
  assumes "list_all is_digit d1"
  shows "str_index (CHR ''S'' # d1 @ CHR ''E'' # d2) CHR ''E'' = Suc (length d1)"
proof -
  from assms have "\<forall>c \<in> set d1. c \<noteq> CHR ''E''"
    by (auto simp: list_all_iff dest: is_digit_not_sign)
  then have "takeWhile (\<lambda>x. x \<noteq> CHR ''E'') (d1 @ CHR ''E'' # d2) = d1"
    by (simp add: takeWhile_tail)
  then show ?thesis by (simp add: str_index_def)
qed

text \<open>What the function does with \<^verbatim>\<open>S\<close>, digits, \<^verbatim>\<open>E\<close>, digits, by the two conversions.\<close>

lemma numbering_of_digit_runs:
  assumes "list_all is_digit d1"
  shows "add_episode_numbering program_elem (JStr (''S'' @ d1 @ ''E'' @ d2)) =
     (let onscreen = append_child program_elem
            (Element ''episode-num'' [(''system'', JStr ''onscreen'')]
               (JStr (''S'' @ d1 @ ''E'' @ d2)) [])
      in case py_int d1 of
           None \<Rightarrow> (onscreen, [Could_Not_Parse_Episode_Number (JStr (''S'' @ d1 @ ''E'' @ d2))])
         | Some series \<Rightarrow>
        (case py_int d2 of
           None \<Rightarrow> (onscreen, [Could_Not_Parse_Episode_Number (JStr (''S'' @ d1 @ ''E'' @ d2))])
         | Some episode \<Rightarrow>
        (case py_str_int (series - 1) of
           None \<Rightarrow>
             (append_child onscreen
                (Element ''episode-num'' [(''system'', JStr ''xmltv_ns'')] JNull []),
              [Could_Not_Parse_Episode_Number (JStr (''S'' @ d1 @ ''E'' @ d2))])
         | Some series_num \<Rightarrow>
        (case py_str_int (episode - 1) of
           None \<Rightarrow>
             (append_child onscreen
                (Element ''episode-num'' [(''system'', JStr ''xmltv_ns'')] JNull []),
              [Could_Not_Parse_Episode_Number (JStr (''S'' @ d1 @ ''E'' @ d2))])
         | Some episode_num \<Rightarrow>
             (append_child onscreen
                (Element ''episode-num'' [(''system'', JStr ''xmltv_ns'')]
                   (JStr (series_num @ ''.'' @ episode_num @ ''.0/0'')) []),
              [])))))"
proof -
  let ?s = "CHR ''S'' # d1 @ CHR ''E'' # d2"
  have iS: "str_index ?s CHR ''S'' = 0" by (rule str_index_S)
  have iE: "str_index ?s CHR ''E'' = Suc (length d1)" by (rule str_index_E[OF assms])
  have "add_episode_numbering program_elem (JStr ?s) =
     (let onscreen = append_child program_elem
            (Element ''episode-num'' [(''system'', JStr ''onscreen'')] (JStr ?s) [])
      in case py_int d1 of
           None \<Rightarrow> (onscreen, [Could_Not_Parse_Episode_Number (JStr ?s)])
         | Some series \<Rightarrow>
        (case py_int d2 of
           None \<Rightarrow> (onscreen, [Could_Not_Parse_Episode_Number (JStr ?s)])
         | Some episode \<Rightarrow>
        (case py_str_int (series - 1) of
           None \<Rightarrow>
             (append_child onscreen
                (Element ''episode-num'' [(''system'', JStr ''xmltv_ns'')] JNull []),
              [Could_Not_Parse_Episode_Number (JStr ?s)])
         | Some series_num \<Rightarrow>
        (case py_str_int (episode - 1) of
           None \<Rightarrow>
             (append_child onscreen
                (Element ''episode-num'' [(''system'', JStr ''xmltv_ns'')] JNull []),
              [Could_Not_Parse_Episode_Number (JStr ?s)])
         | Some episode_num \<Rightarrow>
             (append_child onscreen
                (Element ''episode-num'' [(''system'', JStr ''xmltv_ns'')]
                   (JStr (series_num @ ''.'' @ episode_num @ ''.0/0'')) []),
              [])))))"
    by (simp add: add_episode_numbering_def Let_def iS iE slice_def cong: option.case_cong)
  then show ?thesis by (simp only: append_Cons append_Nil)
qed

lemma of_char_digit_char: "d < 10 \<Longrightarrow> (of_char (digit_char d) :: nat) = 48 + d"
  by (simp add: digit_char_def)

lemma is_digit_digit_char: "d < 10 \<Longrightarrow> is_digit (digit_char d)"
  by (simp add: is_digit_def of_char_digit_char)

lemma digit_val_digit_char: "d < 10 \<Longrightarrow> digit_val (digit_char d) = d"
  by (simp add: digit_val_def of_char_digit_char)

lemma show_nat_digits: "list_all is_digit (show_nat n) \<and> show_nat n \<noteq> []"
proof (induction n rule: show_nat.induct)
  case (1 n)
  show ?case
  proof (cases "n < 10")
    case True
    then show ?thesis by (subst (1 2) show_nat.simps) (simp add: is_digit_digit_char)
  next
    case False
    with 1 show ?thesis
      by (subst (1 2) show_nat.simps) (simp add: is_digit_digit_char)
  qed
qed

lemma digits_val_snoc: "digits_val (ds @ [c]) = 10 * digits_val ds + digit_val c"
  by (simp add: digits_val_def)

lemma digits_val_show_nat: "digits_val (show_nat n) = n"
proof (induction n rule: show_nat.induct)
  case (1 n)
  show ?case
  proof (cases "n < 10")
    case True
    then show ?thesis
      by (subst show_nat.simps) (simp add: digits_val_def digit_val_digit_char)
  next
    case False
    with 1 have "digits_val (show_nat (n div 10)) = n div 10" by simp
    with False show ?thesis
      by (subst show_nat.simps) (simp add: digits_val_snoc digit_val_digit_char)
  qed
qed

text \<open>The value of a run of digits has no more digits than the run.\<close>

lemma digits_val_bound: "list_all is_digit ds \<Longrightarrow> digits_val ds < 10 ^ length ds"
proof (induction ds rule: rev_induct)
  case Nil
  then show ?case by (simp add: digits_val_def)
next
  case (snoc c ds)
  then have b: "digits_val ds < 10 ^ length ds" and d: "is_digit c" by simp_all
  from d have "digit_val c \<le> 9"
    unfolding is_digit_def digit_val_def by linarith
  with b have "10 * digits_val ds + digit_val c < 10 * 10 ^ length ds" by linarith
  then show ?case by (simp add: digits_val_snoc)
qed

lemma length_show_nat_le: "n < 10 ^ k \<Longrightarrow> 0 < k \<Longrightarrow> length (show_nat n) \<le> k"
proof (induction n arbitrary: k rule: show_nat.induct)
  case (1 n)
  show ?case
  proof (cases "n < 10")
    case True
    with "1.prems" show ?thesis by (subst show_nat.simps) simp
  next
    case False
    from "1.prems"(2) obtain j where k: "k = Suc j" by (cases k) auto
    with "1.prems"(1) have dv: "n div 10 < 10 ^ j" by (simp add: less_mult_imp_div_less)
    from False dv have "0 < j" by (cases j) auto
    from "1.IH"[OF False dv this] k False show ?thesis
      by (subst show_nat.simps) simp
  qed
qed

lemma py_str_int_pred:
  assumes "list_all is_digit ds" "ds \<noteq> []" "length ds \<le> int_max_str_digits"
  shows "py_str_int (int (digits_val ds) - 1) = Some (show_int (int (digits_val ds) - 1))"
proof -
  from assms(2) have pos: "0 < length ds" by simp
  have big: "(1::nat) < 10 ^ length ds"
    by (rule one_less_power) (use pos in simp_all)
  have "nat \<bar>int (digits_val ds) - 1\<bar> < 10 ^ length ds"
  proof (cases "digits_val ds = 0")
    case True
    with big show ?thesis by simp
  next
    case False
    then have e: "nat \<bar>int (digits_val ds) - 1\<bar> = digits_val ds - 1" by simp
    have "digits_val ds - 1 < 10 ^ length ds"
      using digits_val_bound[OF assms(1)] by arith
    then show ?thesis by (simp only: e)
  qed
  from length_show_nat_le[OF this pos] assms(3) show ?thesis
    by (simp add: py_str_int_def)
qed

lemma numbering_of_digit_strings:
  assumes "d1 \<noteq> []" "d2 \<noteq> []" "list_all is_digit d1" "list_all is_digit d2"
    and "length d1 \<le> int_max_str_digits" "length d2 \<le> int_max_str_digits"
  shows "add_episode_numbering program_elem (JStr (''S'' @ d1 @ ''E'' @ d2)) =
     (append_child
        (append_child program_elem
           (Element ''episode-num'' [(''system'', JStr ''onscreen'')]
              (JStr (''S'' @ d1 @ ''E'' @ d2)) []))
        (Element ''episode-num'' [(''system'', JStr ''xmltv_ns'')]
           (JStr (show_int (int (digits_val d1) - 1) @ ''.'' @
                  show_int (int (digits_val d2) - 1) @ ''.0/0'')) []),
      [])"
  by (simp only: numbering_of_digit_runs[OF assms(3)]
        py_int_digits[OF assms(1,3,5)] py_int_digits[OF assms(2,4,6)]
        py_str_int_pred[OF assms(3,1,5)] py_str_int_pred[OF assms(4,2,6)]
        Let_def option.case)

lemma numbering_of_long_digit_strings:
  assumes "list_all is_digit d1" "list_all is_digit d2"
    and "int_max_str_digits < length d1 \<or> int_max_str_digits < length d2"
  shows "add_episode_numbering program_elem (JStr (''S'' @ d1 @ ''E'' @ d2)) =
     (append_child program_elem
        (Element ''episode-num'' [(''system'', JStr ''onscreen'')]
           (JStr (''S'' @ d1 @ ''E'' @ d2)) []),
      [Could_Not_Parse_Episode_Number (JStr (''S'' @ d1 @ ''E'' @ d2))])"
proof (cases "py_int d1")
  case None
  then show ?thesis
    by (simp only: numbering_of_digit_runs[OF assms(1)] Let_def option.case)
next
  case (Some v)
  with py_int_long[OF assms(1)] have "\<not> int_max_str_digits < length d1" by auto
  with assms(3) have "int_max_str_digits < length d2" by simp
  from py_int_long[OF assms(2) this] Some show ?thesis
    by (simp only: numbering_of_digit_runs[OF assms(1)] Let_def option.case)
qed

text \<open>
  What \<^verbatim>\<open>int\<close> accepts is not empty and holds nothing but digits, underscores, a sign
  and the whitespace it skips.
\<close>

lemma set_dropWhile_cover: "set xs \<subseteq> set (dropWhile P xs) \<union> {x. P x}"
  by (induction xs) auto

lemma digits_tail_ok_chars:
  "digits_tail_ok ds \<Longrightarrow> \<forall>c \<in> set ds. is_digit c \<or> c = CHR ''_''"
  by (induction ds rule: digits_tail_ok.induct) (auto split: if_splits)

lemma digits_ok_chars:
  "digits_ok ds \<Longrightarrow> ds \<noteq> [] \<and> (\<forall>c \<in> set ds. is_digit c \<or> c = CHR ''_'')"
  by (cases ds) (auto dest: digits_tail_ok_chars)

lemma py_int_accepts:
  assumes "py_int s = Some v"
  shows "s \<noteq> [] \<and>
         (\<forall>c \<in> set s. is_digit c \<or> is_int_space c \<or> c = CHR ''_'' \<or> c = CHR ''+'' \<or>
                       c = CHR ''-'')"
proof -
  define t where "t = rev (dropWhile is_int_space (rev (dropWhile is_int_space s)))"
  define body where
    "body = (if t \<noteq> [] \<and> (hd t = CHR ''-'' \<or> hd t = CHR ''+'') then tl t else t)"
  have "py_int s =
     (if digits_ok body \<and> length (filter is_digit body) \<le> int_max_str_digits
      then Some ((if t \<noteq> [] \<and> hd t = CHR ''-'' then - 1 else 1) *
                 int (digits_val (filter is_digit body)))
      else None)"
    unfolding py_int_def Let_def body_def t_def by (rule refl)
  with assms have "digits_ok body" by (simp split: if_splits)
  from digits_ok_chars[OF this] have ne: "body \<noteq> []"
    and ch: "\<forall>c \<in> set body. is_digit c \<or> c = CHR ''_''" by blast+
  from ne have tne: "t \<noteq> []" by (auto simp: body_def split: if_splits)
  have tc: "\<forall>c \<in> set t. is_digit c \<or> c = CHR ''_'' \<or> c = CHR ''+'' \<or> c = CHR ''-''"
  proof (cases "hd t = CHR ''-'' \<or> hd t = CHR ''+''")
    case True
    with tne ch have "\<forall>c \<in> set (tl t). is_digit c \<or> c = CHR ''_''"
      by (simp add: body_def)
    moreover from tne have "set t = insert (hd t) (set (tl t))"
      by (cases t) auto
    ultimately show ?thesis using True by auto
  next
    case False
    with ch have "\<forall>c \<in> set t. is_digit c \<or> c = CHR ''_''" by (simp add: body_def)
    then show ?thesis by blast
  qed
  have "set s \<subseteq> set (dropWhile is_int_space s) \<union> {c. is_int_space c}"
    by (rule set_dropWhile_cover)
  moreover have "set (dropWhile is_int_space s) \<subseteq> set t \<union> {c. is_int_space c}"
    using set_dropWhile_cover[of "rev (dropWhile is_int_space s)" is_int_space]
    by (simp add: t_def)
  ultimately have "set s \<subseteq> set t \<union> {c. is_int_space c}" by blast
  with tc have "\<forall>c \<in> set s. is_digit c \<or> is_int_space c \<or> c = CHR ''_'' \<or> c = CHR ''+'' \<or>
                       c = CHR ''-''" by blast
  moreover from tne have "s \<noteq> []" by (auto simp: t_def)
  ultimately show ?thesis by blast
qed

lemma show_int_pred: "0 < n \<Longrightarrow> show_int (int n - 1) = show_nat (n - 1)"
  by (simp add: show_int_def nat_diff_distrib')

text \<open>
  C3, as the code has it. For every episode number string the onscreen element with the
  string itself is appended first. For \<^verbatim>\<open>S<n>E<m>\<close> with \<open>n, m \<ge> 1\<close> in decimal, each
  of at most 4300 digits (and, more generally, for any two non-empty runs of at most 4300
  digits, leading zeros allowed), the \<^verbatim>\<open>xmltv_ns\<close> element with the text
  \<^verbatim>\<open>{n-1}.{m-1}.0/0\<close> follows and nothing is logged. A run of more than 4300 digits is
  not converted: only the onscreen element is appended and the warning is logged. When the
  string contains an S and an E but one of the two slices is not an integer \<^verbatim>\<open>int\<close>
  accepts, only the onscreen element is appended and the warning is logged; that is so, in
  particular, when a slice is empty or holds a character other than a digit, an
  underscore, a sign or the whitespace \<^verbatim>\<open>int\<close> skips. The function returns in every
  case, with at most one warning.
\<close>

theorem episode_numbering_translation:
  "take (Suc (length (children program_elem)))
     (children (fst (add_episode_numbering program_elem (JStr s)))) =
     children program_elem @
       [Element ''episode-num'' [(''system'', JStr ''onscreen'')] (JStr s) []] \<and>
   length (snd (add_episode_numbering program_elem (JStr s))) \<le> 1 \<and>
   (0 < n \<and> 0 < m \<and> length (show_nat n) \<le> int_max_str_digits \<and>
    length (show_nat m) \<le> int_max_str_digits \<longrightarrow>
      add_episode_numbering program_elem (JStr (''S'' @ show_nat n @ ''E'' @ show_nat m)) =
        (append_child
           (append_child program_elem
              (Element ''episode-num'' [(''system'', JStr ''onscreen'')]
                 (JStr (''S'' @ show_nat n @ ''E'' @ show_nat m)) []))
           (Element ''episode-num'' [(''system'', JStr ''xmltv_ns'')]
              (JStr (show_nat (n - 1) @ ''.'' @ show_nat (m - 1) @ ''.0/0'')) []),
         [])) \<and>
   (d1 \<noteq> [] \<and> d2 \<noteq> [] \<and> list_all is_digit d1 \<and> list_all is_digit d2 \<and>
    length d1 \<le> int_max_str_digits \<and> length d2 \<le> int_max_str_digits \<longrightarrow>
      add_episode_numbering program_elem (JStr (''S'' @ d1 @ ''E'' @ d2)) =
        (append_child
           (append_child program_elem
              (Element ''episode-num'' [(''system'', JStr ''onscreen'')]
                 (JStr (''S'' @ d1 @ ''E'' @ d2)) []))
           (Element ''episode-num'' [(''system'', JStr ''xmltv_ns'')]
              (JStr (show_int (int (digits_val d1) - 1) @ ''.'' @
                     show_int (int (digits_val d2) - 1) @ ''.0/0'')) []),
         [])) \<and>
   (list_all is_digit d1 \<and> list_all is_digit d2 \<and>
    (int_max_str_digits < length d1 \<or> int_max_str_digits < length d2) \<longrightarrow>
      add_episode_numbering program_elem (JStr (''S'' @ d1 @ ''E'' @ d2)) =
        (append_child program_elem
           (Element ''episode-num'' [(''system'', JStr ''onscreen'')]
              (JStr (''S'' @ d1 @ ''E'' @ d2)) []),
         [Could_Not_Parse_Episode_Number (JStr (''S'' @ d1 @ ''E'' @ d2))])) \<and>
   (CHR ''S'' \<in> set s \<and> CHR ''E'' \<in> set s \<and>
    (py_int (slice s (str_index s CHR ''S'' + 1) (str_index s CHR ''E'')) = None \<or>
     py_int (drop (str_index s CHR ''E'' + 1) s) = None) \<longrightarrow>
      add_episode_numbering program_elem (JStr s) =
        (append_child program_elem
           (Element ''episode-num'' [(''system'', JStr ''onscreen'')] (JStr s) []),
         [Could_Not_Parse_Episode_Number (JStr s)])) \<and>
   (CHR ''S'' \<in> set s \<and> CHR ''E'' \<in> set s \<and>
    (slice s (str_index s CHR ''S'' + 1) (str_index s CHR ''E'') = [] \<or>
     drop (str_index s CHR ''E'' + 1) s = [] \<or>
     (\<exists>c \<in> set (slice s (str_index s CHR ''S'' + 1) (str_index s CHR ''E'')) \<union>
             set (drop (str_index s CHR ''E'' + 1) s).
        \<not> (is_digit c \<or> is_int_space c \<or> c = CHR ''_'' \<or> c = CHR ''+'' \<or> c = CHR ''-''))) \<longrightarrow>
      add_episode_numbering program_elem (JStr s) =
        (append_child program_elem
           (Element ''episode-num'' [(''system'', JStr ''onscreen'')] (JStr s) []),
         [Could_Not_Parse_Episode_Number (JStr s)]))"
proof (intro conjI impI)
  show "take (Suc (length (children program_elem)))
     (children (fst (add_episode_numbering program_elem (JStr s)))) =
     children program_elem @
       [Element ''episode-num'' [(''system'', JStr ''onscreen'')] (JStr s) []]"
    by (simp add: add_episode_numbering_def Let_def append_child_def split: option.splits)
next
  show "length (snd (add_episode_numbering program_elem (JStr s))) \<le> 1"
    by (simp add: add_episode_numbering_def Let_def split: option.splits)
next
  assume nm: "0 < n \<and> 0 < m \<and> length (show_nat n) \<le> int_max_str_digits \<and>
    length (show_nat m) \<le> int_max_str_digits"
  from numbering_of_digit_strings[of "show_nat n" "show_nat m" program_elem]
  show "add_episode_numbering program_elem (JStr (''S'' @ show_nat n @ ''E'' @ show_nat m)) =
        (append_child
           (append_child program_elem
              (Element ''episode-num'' [(''system'', JStr ''onscreen'')]
                 (JStr (''S'' @ show_nat n @ ''E'' @ show_nat m)) []))
           (Element ''episode-num'' [(''system'', JStr ''xmltv_ns'')]
              (JStr (show_nat (n - 1) @ ''.'' @ show_nat (m - 1) @ ''.0/0'')) []),
         [])"
    using nm by (simp add: show_nat_digits digits_val_show_nat show_int_pred)
next
  assume "d1 \<noteq> [] \<and> d2 \<noteq> [] \<and> list_all is_digit d1 \<and> list_all is_digit d2 \<and>
    length d1 \<le> int_max_str_digits \<and> length d2 \<le> int_max_str_digits"
  then show "add_episode_numbering program_elem (JStr (''S'' @ d1 @ ''E'' @ d2)) =
        (append_child
           (append_child program_elem
              (Element ''episode-num'' [(''system'', JStr ''onscreen'')]
                 (JStr (''S'' @ d1 @ ''E'' @ d2)) []))
           (Element ''episode-num'' [(''system'', JStr ''xmltv_ns'')]
              (JStr (show_int (int (digits_val d1) - 1) @ ''.'' @
                     show_int (int (digits_val d2) - 1) @ ''.0/0'')) []),
         [])"
    by (intro numbering_of_digit_strings) simp_all
next
  assume "list_all is_digit d1 \<and> list_all is_digit d2 \<and>
    (int_max_str_digits < length d1 \<or> int_max_str_digits < length d2)"
  then show "add_episode_numbering program_elem (JStr (''S'' @ d1 @ ''E'' @ d2)) =
        (append_child program_elem
           (Element ''episode-num'' [(''system'', JStr ''onscreen'')]
              (JStr (''S'' @ d1 @ ''E'' @ d2)) []),
         [Could_Not_Parse_Episode_Number (JStr (''S'' @ d1 @ ''E'' @ d2))])"
    by (intro numbering_of_long_digit_strings) simp_all
next
  assume "CHR ''S'' \<in> set s \<and> CHR ''E'' \<in> set s \<and>
    (py_int (slice s (str_index s CHR ''S'' + 1) (str_index s CHR ''E'')) = None \<or>
     py_int (drop (str_index s CHR ''E'' + 1) s) = None)"
  then show "add_episode_numbering program_elem (JStr s) =
        (append_child program_elem
           (Element ''episode-num'' [(''system'', JStr ''onscreen'')] (JStr s) []),
         [Could_Not_Parse_Episode_Number (JStr s)])"
    by (auto simp: add_episode_numbering_def Let_def split: option.splits)
next
  let ?a = "slice s (str_index s CHR ''S'' + 1) (str_index s CHR ''E'')"
  let ?b = "drop (str_index s CHR ''E'' + 1) s"
  assume h: "CHR ''S'' \<in> set s \<and> CHR ''E'' \<in> set s \<and>
    (?a = [] \<or> ?b = [] \<or>
     (\<exists>c \<in> set ?a \<union> set ?b.
        \<not> (is_digit c \<or> is_int_space c \<or> c = CHR ''_'' \<or> c = CHR ''+'' \<or> c = CHR ''-'')))"
  have "py_int ?a = None \<or> py_int ?b = None"
  proof (rule ccontr)
    assume "\<not> (py_int ?a = None \<or> py_int ?b = None)"
    then obtain va vb where "py_int ?a = Some va" "py_int ?b = Some vb" by auto
    from py_int_accepts[OF this(1)] py_int_accepts[OF this(2)] h show False by blast
  qed
  with h show "add_episode_numbering program_elem (JStr s) =
        (append_child program_elem
           (Element ''episode-num'' [(''system'', JStr ''onscreen'')] (JStr s) []),
         [Could_Not_Parse_Episode_Number (JStr s)])"
    by (auto simp: add_episode_numbering_def Let_def split: option.splits)
qed

theorem episode_numbering_translation_witness:
  "add_episode_numbering example_programme (JStr ''S2E10'') =
     (append_child
        (append_child example_programme
           (Element ''episode-num'' [(''system'', JStr ''onscreen'')] (JStr ''S2E10'') []))
        (Element ''episode-num'' [(''system'', JStr ''xmltv_ns'')] (JStr ''1.9.0/0'') []),
      []) \<and>
   add_episode_numbering example_programme (JStr ''S01E05'') =
     (append_child
        (append_child example_programme
           (Element ''episode-num'' [(''system'', JStr ''onscreen'')] (JStr ''S01E05'') []))
        (Element ''episode-num'' [(''system'', JStr ''xmltv_ns'')] (JStr ''0.4.0/0'') []),
      []) \<and>
   add_episode_numbering example_programme (JStr (''S'' @ replicate 4301 CHR ''7'' @ ''E'' @ ''1'')) =
     (append_child example_programme
        (Element ''episode-num'' [(''system'', JStr ''onscreen'')]
           (JStr (''S'' @ replicate 4301 CHR ''7'' @ ''E'' @ ''1'')) []),
      [Could_Not_Parse_Episode_Number (JStr (''S'' @ replicate 4301 CHR ''7'' @ ''E'' @ ''1''))]) \<and>
   add_episode_numbering example_programme (JStr ''SxE1'') =
     (append_child example_programme
        (Element ''episode-num'' [(''system'', JStr ''onscreen'')] (JStr ''SxE1'') []),
      [Could_Not_Parse_Episode_Number (JStr ''SxE1'')]) \<and>
   add_episode_numbering example_programme (JStr ''S3E'') =
     (append_child example_programme
        (Element ''episode-num'' [(''system'', JStr ''onscreen'')] (JStr ''S3E'') []),
      [Could_Not_Parse_Episode_Number (JStr ''S3E'')])"
proof -
  have d: "list_all is_digit ''01''" "list_all is_digit ''05''" "list_all is_digit ''1''"
    by (simp_all add: is_digit_def)
  have v: "digits_val ''01'' = 1" "digits_val ''05'' = 5"
    by (simp_all add: digits_val_def digit_val_def)
  have s: "show_nat 2 = ''2''" "show_nat 10 = ''10''" "show_nat 1 = ''1''" "show_nat 9 = ''9''"
    "show_nat 0 = ''0''" "show_nat 4 = ''4''"
    by (simp_all add: show_nat.simps digit_chars)
  have i: "str_index ''SxE1'' CHR ''S'' = 0" "str_index ''SxE1'' CHR ''E'' = 2"
    by (simp_all add: str_index_def)
  have p: "py_int ''x'' = None"
    by (simp add: py_int_def is_int_space_def is_digit_def Let_def)
  have r: "list_all is_digit (replicate 4301 CHR ''7'')"
    by (simp add: list_all_iff is_digit_def)
  have c1: "add_episode_numbering example_programme (JStr ''S2E10'') =
     (append_child
        (append_child example_programme
           (Element ''episode-num'' [(''system'', JStr ''onscreen'')] (JStr ''S2E10'') []))
        (Element ''episode-num'' [(''system'', JStr ''xmltv_ns'')] (JStr ''1.9.0/0'') []),
      [])"
    using episode_numbering_translation[where program_elem = example_programme
        and n = 2 and m = 10] s
    by (simp add: int_max_str_digits_def)
  have c2: "add_episode_numbering example_programme (JStr ''S01E05'') =
     (append_child
        (append_child example_programme
           (Element ''episode-num'' [(''system'', JStr ''onscreen'')] (JStr ''S01E05'') []))
        (Element ''episode-num'' [(''system'', JStr ''xmltv_ns'')] (JStr ''0.4.0/0'') []),
      [])"
    using episode_numbering_translation[where program_elem = example_programme
        and ?d1.0 = "''01''" and ?d2.0 = "''05''"] d v s
    by (simp add: int_max_str_digits_def show_int_def)
  have c3: "add_episode_numbering example_programme
      (JStr (''S'' @ replicate 4301 CHR ''7'' @ ''E'' @ ''1'')) =
     (append_child example_programme
        (Element ''episode-num'' [(''system'', JStr ''onscreen'')]
           (JStr (''S'' @ replicate 4301 CHR ''7'' @ ''E'' @ ''1'')) []),
      [Could_Not_Parse_Episode_Number (JStr (''S'' @ replicate 4301 CHR ''7'' @ ''E'' @ ''1''))])"
    using episode_numbering_translation[where program_elem = example_programme
        and ?d1.0 = "replicate 4301 CHR ''7''" and ?d2.0 = "''1''"] d(3) r
    by (simp add: int_max_str_digits_def)
  have c4: "add_episode_numbering example_programme (JStr ''SxE1'') =
     (append_child example_programme
        (Element ''episode-num'' [(''system'', JStr ''onscreen'')] (JStr ''SxE1'') []),
      [Could_Not_Parse_Episode_Number (JStr ''SxE1'')])"
    using episode_numbering_translation[where program_elem = example_programme
        and s = "''SxE1''"] i p
    by (simp add: slice_def)
  have j: "str_index ''S3E'' CHR ''S'' = 0" "str_index ''S3E'' CHR ''E'' = 2"
    by (simp_all add: str_index_def)
  have c5: "add_episode_numbering example_programme (JStr ''S3E'') =
     (append_child example_programme
        (Element ''episode-num'' [(''system'', JStr ''onscreen'')] (JStr ''S3E'') []),
      [Could_Not_Parse_Episode_Number (JStr ''S3E'')])"
    using episode_numbering_translation[where program_elem = example_programme
        and s = "''S3E''"] j
    by simp
  from c1 c2 c3 c4 c5 show ?thesis by blast
qed

lemma show_nat_power_of_ten:
  "show_nat (10 ^ k) = CHR ''1'' # replicate k CHR ''0''"
proof (induction k)
  case 0
  then show ?case by (simp add: show_nat.simps digit_chars)
next
  case (Suc k)
  have "\<not> (10::nat) ^ Suc k < 10" by simp
  then have "show_nat (10 ^ Suc k) = show_nat (10 ^ k) @ [digit_char 0]"
    by (subst show_nat.simps) simp
  with Suc show ?case
    by (simp add: digit_chars replicate_append_same)
qed

text \<open>
  C3 as stated fails: \<^verbatim>\<open>S<n>E<m>\<close> with \<open>n\<close> the number 1 followed by 4300 zeros and
  \<open>m = 1\<close> is of the valid form, with \<open>n, m \<ge> 1\<close>, but \<^verbatim>\<open>int\<close> refuses the 4301 digits
  of \<open>n\<close>: no \<^verbatim>\<open>xmltv_ns\<close> element is emitted, and a warning is logged.
\<close>

theorem long_series_number_counterexample:
  "(0::nat) < 10 ^ 4300 \<and> (0::nat) < 1 \<and>
   add_episode_numbering example_programme
     (JStr (''S'' @ show_nat (10 ^ 4300) @ ''E'' @ show_nat 1)) =
     (append_child example_programme
        (Element ''episode-num'' [(''system'', JStr ''onscreen'')]
           (JStr (''S'' @ show_nat (10 ^ 4300) @ ''E'' @ show_nat 1)) []),
      [Could_Not_Parse_Episode_Number
         (JStr (''S'' @ show_nat (10 ^ 4300) @ ''E'' @ show_nat 1))])"
proof -
  have l: "int_max_str_digits < length (show_nat (10 ^ 4300))"
    by (simp only: show_nat_power_of_ten) (simp add: int_max_str_digits_def)
  have "add_episode_numbering example_programme
     (JStr (''S'' @ show_nat (10 ^ 4300) @ ''E'' @ show_nat 1)) =
     (append_child example_programme
        (Element ''episode-num'' [(''system'', JStr ''onscreen'')]
           (JStr (''S'' @ show_nat (10 ^ 4300) @ ''E'' @ show_nat 1)) []),
      [Could_Not_Parse_Episode_Number
         (JStr (''S'' @ show_nat (10 ^ 4300) @ ''E'' @ show_nat 1))])"
    by (rule numbering_of_long_digit_strings)
       (simp_all only: show_nat_digits l simp_thms)
  moreover have "(0::nat) < 10 ^ 4300" by (rule zero_less_power) simp
  moreover have "(0::nat) < 1" by simp
  ultimately show ?thesis by blast
qed

subsection \<open>Order of the document\<close>

lemma tag_append_child [simp]: "tag (append_child e c) = tag e"
  by (simp add: append_child_def)

lemma attrib_append_child [simp]: "attrib (append_child e c) = attrib e"
  by (simp add: append_child_def)

lemma children_append_child [simp]: "children (append_child e c) = children e @ [c]"
  by (simp add: append_child_def)

lemma head_add_episode_status:
  "tag (fst (add_episode_status cv e p)) = tag e \<and>
   attrib (fst (add_episode_status cv e p)) = attrib e"
  by (simp add: add_episode_status_def Let_def split: option.splits sum.splits)

lemma head_add_episode_numbering:
  "tag (fst (add_episode_numbering e v)) = tag e \<and>
   attrib (fst (add_episode_numbering e v)) = attrib e"
  by (cases v) (simp_all add: add_episode_numbering_def Let_def split: option.splits)

lemma head_foldl_append_child:
  "tag (foldl (\<lambda>e x. append_child e (f x)) e xs) = tag e \<and>
   attrib (foldl (\<lambda>e x. append_child e (f x)) e xs) = attrib e"
  by (induction xs arbitrary: e) simp_all

lemma head_fill_programme:
  "tag (fst (fill_programme cv e p)) = tag e \<and> attrib (fst (fill_programme cv e p)) = attrib e"
  by (simp add: fill_programme_def Let_def head_add_episode_status head_add_episode_numbering
        head_foldl_append_child
      split: sum.splits prod.splits option.splits)

text \<open>
  A program adds one \<^verbatim>\<open>programme\<close> element to the root when its start and its end have
  a local time in the target zone, and nothing otherwise.
\<close>

lemma children_add_program:
  "children (fst (add_program cv r p)) = children r @
     (if in_zone cv (start_time p) \<and> in_zone cv (end_time p)
      then [fst (fill_programme cv
        (Element ''programme''
           [(''start'', JStr (strftime cv ''%Y%m%d%H%M%S %z'' (local_time cv (start_time p)))),
            (''stop'', JStr (strftime cv ''%Y%m%d%H%M%S %z'' (local_time cv (end_time p)))),
            (''channel'', guide_number p)] JNull []) p)]
      else [])"
  by (simp add: add_program_def astimezone_def Let_def)

lemma children_add_programs:
  "\<exists>prs. children (fst (add_programs cv acc ps)) = children (fst acc) @ prs \<and>
     map tag prs = map (\<lambda>p. ''programme'')
       (filter (\<lambda>p. in_zone cv (start_time p) \<and> in_zone cv (end_time p)) ps) \<and>
     map attrib prs = map (\<lambda>p.
       [(''start'', JStr (strftime cv ''%Y%m%d%H%M%S %z'' (local_time cv (start_time p)))),
        (''stop'', JStr (strftime cv ''%Y%m%d%H%M%S %z'' (local_time cv (end_time p)))),
        (''channel'', guide_number p)])
       (filter (\<lambda>p. in_zone cv (start_time p) \<and> in_zone cv (end_time p)) ps)"
proof (induction ps arbitrary: acc)
  case Nil
  then show ?case by simp
next
  case (Cons p ps)
  let ?ok = "\<lambda>p. in_zone cv (start_time p) \<and> in_zone cv (end_time p)"
  let ?at = "\<lambda>p.
       [(''start'', JStr (strftime cv ''%Y%m%d%H%M%S %z'' (local_time cv (start_time p)))),
        (''stop'', JStr (strftime cv ''%Y%m%d%H%M%S %z'' (local_time cv (end_time p)))),
        (''channel'', guide_number p)]"
  let ?pe = "fst (fill_programme cv (Element ''programme'' (?at p) JNull []) p)"
  let ?new = "if ?ok p then [?pe] else []"
  let ?acc = "(fst (add_program cv (fst acc) p), snd acc @ snd (add_program cv (fst acc) p))"
  from Cons.IH[of ?acc] obtain prs where
    c: "children (fst (add_programs cv ?acc ps)) = children (fst ?acc) @ prs"
    and t: "map tag prs = map (\<lambda>p. ''programme'') (filter ?ok ps)"
    and a: "map attrib prs = map ?at (filter ?ok ps)"
    by blast
  have "children (fst (add_programs cv acc (p # ps))) = children (fst acc) @ (?new @ prs)"
    using c by (simp add: Let_def children_add_program)
  moreover have "map tag (?new @ prs) = map (\<lambda>p. ''programme'') (filter ?ok (p # ps))"
    using t by (simp add: head_fill_programme)
  moreover have "map attrib (?new @ prs) = map ?at (filter ?ok (p # ps))"
    using a by (simp add: head_fill_programme)
  ultimately show ?case by blast
qed

lemma children_add_channels:
  "\<exists>chs. children (foldl add_channel r cs) = children r @ chs \<and>
     map tag chs = map (\<lambda>c. ''channel'') cs \<and>
     map attrib chs = map (\<lambda>c. [(''id'', ch_guide_number c)]) cs \<and>
     tag (foldl add_channel r cs) = tag r"
proof (induction cs arbitrary: r)
  case Nil
  then show ?case by simp
next
  case (Cons c cs)
  from Cons.IH[of "add_channel r c"] obtain chs where
    k: "children (foldl add_channel (add_channel r c) cs) = children (add_channel r c) @ chs"
    and t: "map tag chs = map (\<lambda>c. ''channel'') cs"
    and a: "map attrib chs = map (\<lambda>c. [(''id'', ch_guide_number c)]) cs"
    and g: "tag (foldl add_channel (add_channel r c) cs) = tag (add_channel r c)"
    by blast
  let ?ce = "last (children (add_channel r c))"
  have "children (foldl add_channel r (c # cs)) = children r @ (?ce # chs)"
    using k by (simp add: add_channel_def)
  moreover have "map tag (?ce # chs) = map (\<lambda>c. ''channel'') (c # cs)"
    using t by (simp add: add_channel_def)
  moreover have "map attrib (?ce # chs) = map (\<lambda>c. [(''id'', ch_guide_number c)]) (c # cs)"
    using a by (simp add: add_channel_def)
  moreover have "tag (foldl add_channel r (c # cs)) = tag r"
    using g by (simp add: add_channel_def)
  ultimately show ?case by blast
qed

text \<open>
  C9. The children of the root that \<^verbatim>\<open>convert_to_xmltv\<close> returns are the channel
  elements followed by the programme elements: one \<^verbatim>\<open>channel\<close> element per input
  channel, in the order of the input list (each with the channel's guide number as its
  id), then the \<^verbatim>\<open>programme\<close> elements, in the order of the input list (each with its
  program's start, stop and channel): one for every program whose start and end have a
  local time in the target zone, and none for a program whose conversion overflows.
\<close>

theorem channels_precede_programmes_in_input_order:
  "\<exists>chs prs.
     children (fst (convert_to_xmltv cv channels progs generator_name generator_url)) =
       chs @ prs \<and>
     map tag chs = map (\<lambda>c. ''channel'') channels \<and>
     map attrib chs = map (\<lambda>c. [(''id'', ch_guide_number c)]) channels \<and>
     map tag prs = map (\<lambda>p. ''programme'')
       (filter (\<lambda>p. in_zone cv (start_time p) \<and> in_zone cv (end_time p)) progs) \<and>
     map attrib prs = map (\<lambda>p.
       [(''start'', JStr (strftime cv ''%Y%m%d%H%M%S %z'' (local_time cv (start_time p)))),
        (''stop'', JStr (strftime cv ''%Y%m%d%H%M%S %z'' (local_time cv (end_time p)))),
        (''channel'', guide_number p)])
       (filter (\<lambda>p. in_zone cv (start_time p) \<and> in_zone cv (end_time p)) progs)"
proof -
  let ?root = "Element ''tv''
            [(''source-info-name'', JStr ''HDHomeRun''),
             (''generator-info-name'', JStr generator_name),
             (''generator-info-url'', JStr generator_url)] JNull []"
  from children_add_channels[of ?root channels] obtain chs where
    k: "children (foldl add_channel ?root channels) = chs"
    and t: "map tag chs = map (\<lambda>c. ''channel'') channels"
    and a: "map attrib chs = map (\<lambda>c. [(''id'', ch_guide_number c)]) channels"
    by auto
  from children_add_programs[of cv "(foldl add_channel ?root channels, [])" progs]
  obtain prs where
    "children (fst (add_programs cv (foldl add_channel ?root channels, []) progs)) = chs @ prs"
    "map tag prs = map (\<lambda>p. ''programme'')
       (filter (\<lambda>p. in_zone cv (start_time p) \<and> in_zone cv (end_time p)) progs)"
    "map attrib prs = map (\<lambda>p.
       [(''start'', JStr (strftime cv ''%Y%m%d%H%M%S %z'' (local_time cv (start_time p)))),
        (''stop'', JStr (strftime cv ''%Y%m%d%H%M%S %z'' (local_time cv (end_time p)))),
        (''channel'', guide_number p)])
       (filter (\<lambda>p. in_zone cv (start_time p) \<and> in_zone cv (end_time p)) progs)"
    using k by auto
  with t a show ?thesis
    unfolding convert_to_xmltv_def Let_def by blast
qed

theorem channels_precede_programmes_in_input_order_witness:
  "map tag (children (fst (convert_to_xmltv example_converter [example_channel]
     [rec_a, rec_b\<lparr>start_time := - 62135596800\<rparr>, rec_b] ''gen'' ''url''))) =
     [''channel'', ''programme'', ''programme''] \<and>
   map attrib (children (fst (convert_to_xmltv example_converter [example_channel]
     [rec_a, rec_b\<lparr>start_time := - 62135596800\<rparr>, rec_b] ''gen'' ''url''))) =
     [[(''id'', JStr ''5.1'')],
      [(''start'', JStr ''-18000''), (''stop'', JStr ''-17940''), (''channel'', JStr ''5.1'')],
      [(''start'', JStr ''-17940''), (''stop'', JStr ''-17910''), (''channel'', JStr ''5.1'')]]"
proof -
  let ?progs = "[rec_a, rec_b\<lparr>start_time := - 62135596800\<rparr>, rec_b]"
  let ?ok = "\<lambda>p. in_zone example_converter (start_time p) \<and>
                  in_zone example_converter (end_time p)"
  from channels_precede_programmes_in_input_order
    [of example_converter "[example_channel]" ?progs "''gen''" "''url''"]
  obtain chs prs where
    k: "children (fst (convert_to_xmltv example_converter [example_channel] ?progs
          ''gen'' ''url'')) = chs @ prs"
    and t: "map tag chs = map (\<lambda>c. ''channel'') [example_channel]"
      "map tag prs = map (\<lambda>p. ''programme'') (filter ?ok ?progs)"
    and a: "map attrib chs = map (\<lambda>c. [(''id'', ch_guide_number c)]) [example_channel]"
      "map attrib prs = map (\<lambda>p.
        [(''start'', JStr (strftime example_converter ''%Y%m%d%H%M%S %z''
             (local_time example_converter (start_time p)))),
         (''stop'', JStr (strftime example_converter ''%Y%m%d%H%M%S %z''
             (local_time example_converter (end_time p)))),
         (''channel'', guide_number p)]) (filter ?ok ?progs)"
    by blast
  have f: "filter ?ok ?progs = [rec_a, rec_b]"
    by (simp add: in_zone_def representable_def datetime_min_def datetime_max_def
        example_converter_def rec_a_def rec_b_def)
  have s: "show_int (- 18000) = ''-18000''" "show_int (- 17940) = ''-17940''"
    "show_int (- 17910) = ''-17910''"
    by (simp_all add: show_int_def show_nat.simps digit_chars)
  have "map tag (children (fst (convert_to_xmltv example_converter [example_channel]
      ?progs ''gen'' ''url''))) = map tag chs @ map tag prs"
    and "map attrib (children (fst (convert_to_xmltv example_converter [example_channel]
      ?progs ''gen'' ''url''))) = map attrib chs @ map attrib prs"
    using k by simp_all
  then show ?thesis
    unfolding t a f
    by (simp add: example_converter_def example_channel_def rec_a_def rec_b_def
          local_time_def s)
qed

end

